theory Spec2Isabelle
  imports Main "HOL-Library.Word"
begin

section \<open>The tileset of libtcod (src/libtcod/tileset.c)\<close>

text \<open>
  A shallow embedding of \<^verbatim>\<open>tileset.c\<close>. Conventions:
  \<^item> a C \<^verbatim>\<open>int\<close> is an \<open>int\<close>; the development is about executions without
    signed overflow (undefined in C);
  \<^item> a pointer to a tileset is a \<open>TCOD_Tileset option\<close> (\<open>None\<close> is \<^verbatim>\<open>NULL\<close>); a
    function that mutates the tileset returns the object after the call beside its C
    return value;
  \<^item> \<^verbatim>\<open>calloc\<close>, \<^verbatim>\<open>malloc\<close> and \<^verbatim>\<open>realloc\<close> succeed or fail as an \<open>allocator\<close>
    says, so every allocation failure of the source is a branch of the model;
  \<^item> the hooks of an observer are C function pointers; what a hook does is recorded as
    an \<open>event\<close> of the trace the calling function returns, and the status a change
    hook returns is a function of its arguments. A hook does not modify the tileset;
  \<^item> the result of a function with the doubling loop of
    \<^verbatim>\<open>TCOD_tileset_assign_charmap\<close> is an \<open>option\<close>: \<open>None\<close> when the loop does not
    terminate, or when the source dereferences a null pointer.
\<close>

subsection \<open>Data\<close>

type_synonym u8 = "8 word"

text \<open>\<^verbatim>\<open>struct TCOD_ColorRGBA { uint8_t r, g, b, a; }\<close>\<close>

datatype TCOD_ColorRGBA = ColorRGBA (col_r: u8) (col_g: u8) (col_b: u8) (col_a: u8)

text \<open>
  What the environment observes of a call: the hooks invoked (with the address of the
  observer, and the hook's arguments) and the blocks given back to \<^verbatim>\<open>free\<close>.
\<close>

datatype event =
    Tileset_changed nat int int
  | Observer_deleted nat
  | Observer_freed nat
  | Pixels_freed
  | Charmap_freed
  | Tileset_freed

text \<open>
  \<^verbatim>\<open>struct TCOD_TilesetObserver\<close>: the node's address is its identity, \<^verbatim>\<open>next\<close> is the
  tail of the list the node stands in, and \<^verbatim>\<open>tileset\<close> is the tileset that holds the list.
  \<open>on_observer_delete\<close> tells whether the deletion hook is set.
\<close>

record TCOD_TilesetObserver =
  observer_addr :: nat
  on_tileset_changed :: "(int \<Rightarrow> int \<Rightarrow> int) option"
  on_observer_delete :: bool

text \<open>
  \<^verbatim>\<open>struct TCOD_Tileset\<close>. \<open>pixels\<close> is \<open>None\<close> for the null pointer; \<open>character_map\<close> is
  the empty list for the null pointer (the source never tests it).
\<close>

record TCOD_Tileset =
  tile_width :: int
  tile_height :: int
  tile_length :: int
  tiles_capacity :: int
  tiles_count :: int
  pixels :: "TCOD_ColorRGBA list option"
  character_map_length :: int
  character_map :: "int list"
  observer_list :: "TCOD_TilesetObserver list"
  virtual_columns :: int
  ref_count :: int

text \<open>The requests to the C allocator, with the number of elements asked for.\<close>

datatype request = Alloc_tileset | Alloc_pixels int | Alloc_charmap int

type_synonym allocator = "request \<Rightarrow> bool"

definition DEFAULT_TILES_LENGTH :: int where
  "DEFAULT_TILES_LENGTH = 256"

definition DEFAULT_CHARMAP_LENGTH :: int where
  "DEFAULT_CHARMAP_LENGTH = 256"

definition arena :: "TCOD_Tileset \<Rightarrow> TCOD_ColorRGBA list" where
  "arena ts = (case pixels ts of None \<Rightarrow> [] | Some ps \<Rightarrow> ps)"

text \<open>
  \<^verbatim>\<open>memcpy(dst + off, src, n * sizeof(dst[0]))\<close> on arrays as lists, for
  \<open>off + n \<le> length dst\<close> and \<open>n \<le> length src\<close> (anything else is out of bounds in C).
\<close>

definition memcpy :: "'a list \<Rightarrow> nat \<Rightarrow> 'a list \<Rightarrow> nat \<Rightarrow> 'a list" where
  "memcpy dst off src n = take off dst @ take n src @ drop (off + n) dst"

text \<open>The block of a tile id in the pixel arena: \<^verbatim>\<open>pixels + tile_length * tile_id\<close>.\<close>

definition tile_block :: "TCOD_Tileset \<Rightarrow> int \<Rightarrow> TCOD_ColorRGBA list" where
  "tile_block ts tile_id =
     take (nat (tile_length ts)) (drop (nat (tile_length ts * tile_id)) (arena ts))"

subsection \<open>Lifecycle and observers\<close>

definition TCOD_tileset_new :: "allocator \<Rightarrow> int \<Rightarrow> int \<Rightarrow> TCOD_Tileset option" where
  "TCOD_tileset_new A tw th =
     (if \<not> A Alloc_tileset then None
      else Some \<lparr>tile_width = tw, tile_height = th, tile_length = tw * th,
                 tiles_capacity = 0, tiles_count = 0, pixels = None,
                 character_map_length = 0, character_map = [],
                 observer_list = [], virtual_columns = 1, ref_count = 1\<rparr>)"


text \<open>
  The loop of \<^verbatim>\<open>TCOD_tileset_observer_delete\<close> over the links of the list: the first
  node at the address is unlinked and returned with the list without it.
\<close>

fun observer_unlink ::
  "nat \<Rightarrow> TCOD_TilesetObserver list \<Rightarrow> (TCOD_TilesetObserver \<times> TCOD_TilesetObserver list) option" where
  "observer_unlink addr [] = None"
| "observer_unlink addr (it # rest) =
     (if observer_addr it \<noteq> addr then
        (case observer_unlink addr rest of
           None \<Rightarrow> None
         | Some (ob, others) \<Rightarrow> Some (ob, it # others))
      else Some (it, rest))"

text \<open>
  \<^verbatim>\<open>TCOD_tileset_observer_delete(observer)\<close>, on the tileset \<^verbatim>\<open>observer->tileset\<close>.
\<close>

definition TCOD_tileset_observer_delete ::
  "TCOD_Tileset \<Rightarrow> nat option \<Rightarrow> TCOD_Tileset \<times> event list" where
  "TCOD_tileset_observer_delete ts observer =
     (case observer of
        None \<Rightarrow> (ts, [])
      | Some addr \<Rightarrow>
          (case observer_unlink addr (observer_list ts) of
             None \<Rightarrow> (ts, [])
           | Some (ob, rest) \<Rightarrow>
               (ts\<lparr>observer_list := rest\<rparr>,
                (if on_observer_delete ob then [Observer_deleted addr] else [])
                  @ [Observer_freed addr])))"

text \<open>
  The loop of \<^verbatim>\<open>TCOD_tileset_delete\<close>:
  \<^verbatim>\<open>while (tileset->observer_list) TCOD_tileset_observer_delete(tileset->observer_list);\<close>
\<close>

function delete_observers :: "TCOD_Tileset \<Rightarrow> TCOD_Tileset \<times> event list" where
  "delete_observers ts =
     (case observer_list ts of
        [] \<Rightarrow> (ts, [])
      | it # rest \<Rightarrow>
          (case TCOD_tileset_observer_delete ts (Some (observer_addr it)) of
             (ts', evs) \<Rightarrow>
               (case delete_observers ts' of (ts'', evs') \<Rightarrow> (ts'', evs @ evs'))))"
  by pat_completeness auto
termination
  by (relation "measure (\<lambda>ts. length (observer_list ts))")
     (auto simp: TCOD_tileset_observer_delete_def)

declare delete_observers.simps [simp del]

text \<open>
  \<^verbatim>\<open>TCOD_tileset_delete\<close>: the tileset after the call (\<open>None\<close> once it is freed) and the
  trace of hooks and frees.
\<close>

definition TCOD_tileset_delete :: "TCOD_Tileset option \<Rightarrow> TCOD_Tileset option \<times> event list" where
  "TCOD_tileset_delete tileset =
     (case tileset of
        None \<Rightarrow> (None, [])
      | Some ts \<Rightarrow>
          (let ts1 = ts\<lparr>ref_count := ref_count ts - 1\<rparr> in
           if ref_count ts1 \<noteq> 0 then (Some ts1, [])
           else (case delete_observers ts1 of
                   (ts2, evs) \<Rightarrow> (None, evs @ [Pixels_freed, Charmap_freed, Tileset_freed]))))"

definition TCOD_tileset_get_tile_width_' :: "TCOD_Tileset option \<Rightarrow> int" where
  "TCOD_tileset_get_tile_width_' tileset = (case tileset of None \<Rightarrow> 0 | Some ts \<Rightarrow> tile_width ts)"

definition TCOD_tileset_get_tile_height_' :: "TCOD_Tileset option \<Rightarrow> int" where
  "TCOD_tileset_get_tile_height_' tileset = (case tileset of None \<Rightarrow> 0 | Some ts \<Rightarrow> tile_height ts)"

subsection \<open>The charmap\<close>

definition TCOD_tileset_get_charmap :: "TCOD_Tileset option \<Rightarrow> int \<Rightarrow> int" where
  "TCOD_tileset_get_charmap tileset codepoint =
     (case tileset of
        None \<Rightarrow> -1
      | Some ts \<Rightarrow>
          if codepoint < 0 \<or> codepoint \<ge> character_map_length ts then -1
          else character_map ts ! nat codepoint)"

text \<open>\<^verbatim>\<open>while (codepoint >= new_length) { new_length *= 2; }\<close>\<close>

partial_function (option) charmap_new_length :: "int \<Rightarrow> int \<Rightarrow> int option" where
  "charmap_new_length codepoint new_length =
     (if codepoint \<ge> new_length then charmap_new_length codepoint (new_length * 2)
      else Some new_length)"

definition TCOD_tileset_assign_charmap ::
  "allocator \<Rightarrow> TCOD_Tileset option \<Rightarrow> int \<Rightarrow> int \<Rightarrow> (int \<times> TCOD_Tileset option) option" where
  "TCOD_tileset_assign_charmap A tileset codepoint tile_id =
     (case tileset of
        None \<Rightarrow> Some (-1, None)
      | Some ts \<Rightarrow>
          if tile_id < 0 \<or> tile_id \<ge> tiles_count ts then Some (-1, tileset)
          else if codepoint < 0 then Some (-1, tileset)
          else if codepoint \<ge> character_map_length ts then
            (case charmap_new_length codepoint
                    (if character_map_length ts = 0 then DEFAULT_CHARMAP_LENGTH
                     else character_map_length ts) of
               None \<Rightarrow> None
             | Some new_length \<Rightarrow>
                 if \<not> A (Alloc_charmap new_length) then Some (-1, tileset)
                 else
                   (let new_charmap =
                          character_map ts
                            @ replicate (nat (new_length - character_map_length ts)) 0
                    in Some (tile_id,
                             Some (ts\<lparr>character_map_length := new_length,
                                      character_map := new_charmap[nat codepoint := tile_id]\<rparr>))))
          else Some (tile_id,
                     Some (ts\<lparr>character_map := (character_map ts)[nat codepoint := tile_id]\<rparr>)))"

text \<open>
  The growth step of \<^verbatim>\<open>TCOD_tileset_generate_charmap\<close> (the body of
  \<^verbatim>\<open>if (tileset->tiles_count == tileset->tiles_capacity)\<close>): \<open>None\<close> when \<^verbatim>\<open>realloc\<close>
  fails. The loop clears the pixels from \<^verbatim>\<open>tiles_capacity * tile_length\<close> up to
  \<^verbatim>\<open>new_capacity * tile_length\<close>.
\<close>

definition grow_pixels :: "allocator \<Rightarrow> TCOD_Tileset \<Rightarrow> TCOD_Tileset option" where
  "grow_pixels A ts =
     (let new_capacity =
            (if tiles_capacity ts * 2 = 0 then DEFAULT_TILES_LENGTH else tiles_capacity ts * 2)
      in if \<not> A (Alloc_pixels (new_capacity * tile_length ts)) then None
         else Some (ts\<lparr>tiles_capacity := new_capacity,
                       pixels := Some (arena ts
                         @ replicate (nat ((new_capacity - tiles_capacity ts) * tile_length ts))
                             (ColorRGBA 0 0 0 0))\<rparr>))"

definition TCOD_tileset_generate_charmap ::
  "allocator \<Rightarrow> TCOD_Tileset option \<Rightarrow> int \<Rightarrow> (int \<times> TCOD_Tileset option) option" where
  "TCOD_tileset_generate_charmap A tileset codepoint =
     (case tileset of
        None \<Rightarrow> Some (-1, None)
      | Some ts \<Rightarrow>
          (let tile_id = TCOD_tileset_get_charmap tileset codepoint in
           if tile_id > 0 then Some (tile_id, tileset)
           else
             (case (if tiles_count ts = tiles_capacity ts then grow_pixels A ts else Some ts) of
                None \<Rightarrow> Some (-1, tileset)
              | Some ts1 \<Rightarrow>
                  (let ts2 = (if tiles_count ts1 = 0 then ts1\<lparr>tiles_count := 1\<rparr> else ts1);
                       tile_id = tiles_count ts2;
                       ts3 = ts2\<lparr>tiles_count := tiles_count ts2 + 1\<rparr>
                   in TCOD_tileset_assign_charmap A (Some ts3) codepoint tile_id))))"

subsection \<open>Reading and writing tiles\<close>

text \<open>
  The static \<^verbatim>\<open>TCOD_tileset_get_tile\<close> returns a pointer into the arena: here the
  offset of the tile, \<open>None\<close> for \<^verbatim>\<open>NULL\<close>. With \<^verbatim>\<open>pixels == NULL\<close> the source's
  \<^verbatim>\<open>pixels + 0\<close> is \<^verbatim>\<open>NULL\<close> again.
\<close>

definition TCOD_tileset_get_tile :: "TCOD_Tileset option \<Rightarrow> int \<Rightarrow> nat option" where
  "TCOD_tileset_get_tile tileset codepoint =
     (case tileset of
        None \<Rightarrow> None
      | Some ts \<Rightarrow>
          (let tile_id = TCOD_tileset_get_charmap tileset codepoint in
           if tile_id < 0 then None
           else if pixels ts = None \<and> tile_length ts * tile_id = 0 then None
           else Some (nat (tile_length ts * tile_id))))"

text \<open>
  \<^verbatim>\<open>TCOD_tileset_get_tile_\<close>: the status and the caller's buffer after the call
  (\<open>None\<close> for a null buffer).
\<close>

definition TCOD_tileset_get_tile_' ::
  "TCOD_Tileset option \<Rightarrow> int \<Rightarrow> TCOD_ColorRGBA list option \<Rightarrow> int \<times> TCOD_ColorRGBA list option" where
  "TCOD_tileset_get_tile_' tileset codepoint buffer =
     (case tileset of
        None \<Rightarrow> (-1, buffer)
      | Some ts \<Rightarrow>
          (case TCOD_tileset_get_tile tileset codepoint of
             None \<Rightarrow> (-1, buffer)
           | Some tile \<Rightarrow>
               (case buffer of
                  None \<Rightarrow> (0, None)
                | Some buf \<Rightarrow>
                    (0, Some (memcpy buf 0 (drop tile (arena ts)) (nat (tile_length ts)))))))"

text \<open>
  The notification loop of \<^verbatim>\<open>TCOD_tileset_set_tile_\<close>: the status it leaves with and
  the change hooks it invoked, in order.
\<close>

fun notify_observers :: "TCOD_TilesetObserver list \<Rightarrow> int \<Rightarrow> int \<Rightarrow> int \<times> event list" where
  "notify_observers [] tile_id codepoint = (0, [])"
| "notify_observers (it # rest) tile_id codepoint =
     (case on_tileset_changed it of
        None \<Rightarrow> notify_observers rest tile_id codepoint
      | Some hook \<Rightarrow>
          (let err = hook tile_id codepoint;
               ev = Tileset_changed (observer_addr it) tile_id codepoint
           in if err \<noteq> 0 then (err, [ev])
              else (case notify_observers rest tile_id codepoint of
                      (e, evs) \<Rightarrow> (e, ev # evs))))"

definition TCOD_tileset_set_tile_' ::
  "allocator \<Rightarrow> TCOD_Tileset option \<Rightarrow> int \<Rightarrow> TCOD_ColorRGBA list
     \<Rightarrow> (int \<times> TCOD_Tileset option \<times> event list) option" where
  "TCOD_tileset_set_tile_' A tileset codepoint buffer =
     (case tileset of
        None \<Rightarrow> Some (-1, None, [])
      | Some ts \<Rightarrow>
          (case (let tile_id = TCOD_tileset_get_charmap tileset codepoint in
                 if tile_id < 0 then TCOD_tileset_generate_charmap A tileset codepoint
                 else Some (tile_id, tileset)) of
             None \<Rightarrow> None
           | Some (tile_id, tileset1) \<Rightarrow>
               if tile_id < 0 then Some (tile_id, tileset1, [])
               else
                 (case tileset1 of
                    None \<Rightarrow> None
                  | Some ts1 \<Rightarrow>
                      (let ts2 = ts1\<lparr>pixels :=
                                   Some (memcpy (arena ts1) (nat (tile_length ts1 * tile_id))
                                           buffer (nat (tile_length ts1)))\<rparr>
                       in case notify_observers (observer_list ts2) tile_id codepoint of
                            (err, evs) \<Rightarrow> Some (err, Some ts2, evs)))))"

subsection \<open>Loading a font atlas\<close>

text \<open>
  \<^verbatim>\<open>TCOD_tileset_load\<close> on the image that \<^verbatim>\<open>lodepng_decode32_file\<close> decodes: the pixels
  \<open>font\<close>, row by row, and the unsigned \<open>font_width\<close>. The model is for
  \<open>columns > 0\<close> and \<open>rows > 0\<close>, where C's division agrees with \<open>div\<close> and \<open>mod\<close> (by
  zero it is undefined in C).

  The check for a color key in the first tile: \<^verbatim>\<open>color_key\<close> starts as \<^verbatim>\<open>&font[0]\<close> and
  becomes \<^verbatim>\<open>NULL\<close> at the first pixel of the tile that differs from it.
\<close>

definition load_color_key ::
  "TCOD_ColorRGBA list \<Rightarrow> nat \<Rightarrow> int \<Rightarrow> int \<Rightarrow> TCOD_ColorRGBA option" where
  "load_color_key font font_width tw th =
     fold (\<lambda>y. fold (\<lambda>x color_key.
                  (let pixel = font ! (y * font_width + x) in
                   case color_key of
                     None \<Rightarrow> None
                   | Some k \<Rightarrow> if pixel \<noteq> k then None else color_key))
                [0..<nat tw])
       [0..<nat th] (Some (font ! 0))"

text \<open>
  The analysis of the tile that starts at \<open>font_i\<close>: \<open>(has_color, has_alpha)\<close>.
\<close>

definition load_analyse ::
  "TCOD_ColorRGBA list \<Rightarrow> nat \<Rightarrow> int \<Rightarrow> int \<Rightarrow> nat \<Rightarrow> bool \<times> bool" where
  "load_analyse font font_width tw th font_i =
     fold (\<lambda>y. fold (\<lambda>x (has_color, has_alpha).
                  (let pixel = font ! (font_i + y * font_width + x) in
                   (if col_r pixel \<noteq> col_g pixel \<or> col_r pixel \<noteq> col_b pixel then True
                    else has_color,
                    if col_a pixel \<noteq> 255 then True else has_alpha)))
                [0..<nat tw])
       [0..<nat th] (False, False)"

text \<open>
  The body of the loop that normalizes and copies a tile, on one pixel of the font: the
  grey-scale conversion assigns to \<^verbatim>\<open>pixel\<close>, and the comparison with the color key
  reads \<^verbatim>\<open>pixel\<close> after it.
\<close>

definition load_normalize ::
  "bool \<Rightarrow> bool \<Rightarrow> TCOD_ColorRGBA option \<Rightarrow> TCOD_ColorRGBA \<Rightarrow> TCOD_ColorRGBA" where
  "load_normalize has_color has_alpha color_key font_pixel =
     (let pixel = (if \<not> has_color \<and> \<not> has_alpha
                   then ColorRGBA 255 255 255 (col_r font_pixel) else font_pixel)
      in case color_key of
           None \<Rightarrow> pixel
         | Some k \<Rightarrow>
             if col_r k = col_r pixel \<and> col_g k = col_g pixel \<and> col_b k = col_b pixel
                \<and> col_a k = col_a pixel
             then ColorRGBA 0 0 0 0 else pixel)"

text \<open>
  The pixels of tile \<open>i\<close>. The loops store at \<^verbatim>\<open>tile_i + y * tile_width + x\<close> with
  \<^verbatim>\<open>tile_i = i * tile_length\<close>: every index of the tile once, in increasing order, so
  the tile is the list of the stored pixels in the order of the loops.
\<close>

definition load_tile ::
  "TCOD_ColorRGBA list \<Rightarrow> nat \<Rightarrow> int \<Rightarrow> int \<Rightarrow> int \<Rightarrow> TCOD_ColorRGBA option \<Rightarrow> nat
     \<Rightarrow> TCOD_ColorRGBA list" where
  "load_tile font font_width tw th columns color_key i =
     (let font_y = nat (int i div columns * th);
          font_x = nat (int i mod columns * tw);
          font_i = font_y * font_width + font_x
      in case load_analyse font font_width tw th font_i of
           (has_color, has_alpha) \<Rightarrow>
             concat (map (\<lambda>y. map (\<lambda>x. load_normalize has_color has_alpha color_key
                                           (font ! (font_i + y * font_width + x)))
                                [0..<nat tw])
                       [0..<nat th]))"

text \<open>
  The loop that assigns the codepoints, over the indices \<open>i\<close> still to do. A failed
  assignment deletes the tileset (its only reference) and returns \<^verbatim>\<open>NULL\<close>, as a
  failed \<^verbatim>\<open>malloc\<close> of the pixels does in \<^verbatim>\<open>TCOD_tileset_load\<close>.
\<close>

fun load_assign ::
  "allocator \<Rightarrow> int list option \<Rightarrow> nat list \<Rightarrow> TCOD_Tileset \<Rightarrow> TCOD_Tileset option option" where
  "load_assign A charmap [] ts = Some (Some ts)"
| "load_assign A charmap (i # todo) ts =
     (let codepoint = (case charmap of None \<Rightarrow> int i | Some cm \<Rightarrow> cm ! i) in
      case TCOD_tileset_assign_charmap A (Some ts) codepoint (int i) of
        None \<Rightarrow> None
      | Some (r, tileset') \<Rightarrow>
          if r < 0 then Some None
          else (case tileset' of
                  None \<Rightarrow> None
                | Some ts' \<Rightarrow> load_assign A charmap todo ts'))"

text \<open>
  \<open>decoded\<close> is the result of the decoder: \<open>None\<close> for an error, else the pixels, the
  width and the height of the image. The source does not test the result of
  \<^verbatim>\<open>TCOD_tileset_new\<close> before it writes to it.
\<close>

definition TCOD_tileset_load ::
  "allocator \<Rightarrow> (TCOD_ColorRGBA list \<times> nat \<times> nat) option \<Rightarrow> int \<Rightarrow> int \<Rightarrow> int
     \<Rightarrow> int list option \<Rightarrow> TCOD_Tileset option option" where
  "TCOD_tileset_load A decoded columns rows n charmap =
     (let font_tiles = columns * rows in
      case decoded of
        None \<Rightarrow> Some None
      | Some (font, font_width, font_height) \<Rightarrow>
          (case TCOD_tileset_new A (int font_width div columns) (int font_height div rows) of
             None \<Rightarrow> None
           | Some ts0 \<Rightarrow>
               (let ts1 = ts0\<lparr>virtual_columns := columns\<rparr> in
                if \<not> A (Alloc_pixels (tile_length ts1 * font_tiles))
                then Some None
                else
                  (let ts2 = ts1\<lparr>tiles_capacity := font_tiles, tiles_count := font_tiles\<rparr>;
                       color_key = load_color_key font font_width (tile_width ts2) (tile_height ts2);
                       ts3 = ts2\<lparr>pixels := Some (concat (map
                                (load_tile font font_width (tile_width ts2) (tile_height ts2)
                                   columns color_key)
                                [0..<nat font_tiles]))\<rparr>;
                       n = (if charmap = None then font_tiles else n)
                   in load_assign A charmap [0..<nat n] ts3))))"

subsection \<open>Well-formed tilesets\<close>

text \<open>
  What the functions above keep of a tileset: the arena holds \<open>tiles_capacity\<close> blocks of
  \<open>tile_length\<close> pixels, it has no capacity before the first tile and is allocated once
  there is a tile, the charmap has its
  recorded length, and every entry of the charmap is the id of a tile.
\<close>

definition tileset_ok :: "TCOD_Tileset \<Rightarrow> bool" where
  "tileset_ok ts \<longleftrightarrow>
     0 \<le> tile_length ts \<and> 0 \<le> tiles_count ts \<and> tiles_count ts \<le> tiles_capacity ts \<and>
     (tiles_count ts = 0 \<longrightarrow> tiles_capacity ts = 0) \<and>
     (pixels ts = None \<longrightarrow> tiles_capacity ts = 0) \<and>
     int (length (arena ts)) = tiles_capacity ts * tile_length ts \<and>
     int (length (character_map ts)) = character_map_length ts \<and>
     list_all (\<lambda>t. 0 \<le> t \<and> t < tiles_count ts) (character_map ts)"


subsection \<open>Scenarios\<close>

text \<open>
  The allocator that never fails, the tileset \<^verbatim>\<open>TCOD_tileset_new(1, 1)\<close> returns with it,
  and that tileset after \<^verbatim>\<open>TCOD_tileset_set_tile_\<close> wrote the pixel \<open>{1, 2, 3, 4}\<close> for the
  codepoint 65.
\<close>

definition alloc_ok :: allocator where
  "alloc_ok = (\<lambda>request. True)"

definition tileset_1x1 :: TCOD_Tileset where
  "tileset_1x1 =
     \<lparr>tile_width = 1, tile_height = 1, tile_length = 1,
      tiles_capacity = 0, tiles_count = 0, pixels = None,
      character_map_length = 0, character_map = [],
      observer_list = [], virtual_columns = 1, ref_count = 1\<rparr>"

definition tileset_1x1_A :: TCOD_Tileset where
  "tileset_1x1_A =
     \<lparr>tile_width = 1, tile_height = 1, tile_length = 1,
      tiles_capacity = 256, tiles_count = 2,
      pixels = Some (ColorRGBA 0 0 0 0 # ColorRGBA 1 2 3 4 # replicate 254 (ColorRGBA 0 0 0 0)),
      character_map_length = 256, character_map = (replicate 256 0)[65 := 1],
      observer_list = [], virtual_columns = 1, ref_count = 1\<rparr>"

text \<open>
  Two observers, the second attached after the first: the change hook of \<open>observer_2\<close>
  returns 7, that of \<open>observer_1\<close> returns 0, and only \<open>observer_2\<close> has a deletion
  hook. \<open>tileset_observed\<close> is \<open>tileset_1x1\<close> with both attached.
\<close>

definition observer_1 :: TCOD_TilesetObserver where
  "observer_1 = \<lparr>observer_addr = 1, on_tileset_changed = Some (\<lambda>tile_id codepoint. 0),
                   on_observer_delete = False\<rparr>"

definition observer_2 :: TCOD_TilesetObserver where
  "observer_2 = \<lparr>observer_addr = 2, on_tileset_changed = Some (\<lambda>tile_id codepoint. 7),
                   on_observer_delete = True\<rparr>"


definition tileset_observed_A :: TCOD_Tileset where
  "tileset_observed_A = tileset_1x1_A\<lparr>observer_list := [observer_2, observer_1]\<rparr>"






text \<open>
  A caller's sequence of calls of \<^verbatim>\<open>TCOD_tileset_assign_charmap\<close>, each with its
  codepoint and tile id, whether they fail or not; and \<open>tileset_1x1_A\<close> after the
  codepoint 300 is assigned to tile 1, which grows the charmap to 512 entries.
\<close>

fun assign_charmap_calls ::
  "allocator \<Rightarrow> TCOD_Tileset \<Rightarrow> (int \<times> int) list \<Rightarrow> TCOD_Tileset option" where
  "assign_charmap_calls A ts [] = Some ts"
| "assign_charmap_calls A ts ((codepoint, tile_id) # calls) =
     (case TCOD_tileset_assign_charmap A (Some ts) codepoint tile_id of
        Some (r, Some ts') \<Rightarrow> assign_charmap_calls A ts' calls
      | _ \<Rightarrow> None)"

definition tileset_1x1_B :: TCOD_Tileset where
  "tileset_1x1_B =
     tileset_1x1_A\<lparr>character_map_length := 512,
                    character_map := ((replicate 256 0)[65 := 1] @ replicate 256 0)[300 := 1]\<rparr>"

text \<open>
  Scenario A: the tileset \<^verbatim>\<open>TCOD_tileset_new(8, 8)\<close> returns, and that tileset after
  \<^verbatim>\<open>TCOD_tileset_set_tile_\<close> wrote a block of 64 opaque grey pixels for the codepoint 65.
\<close>

definition tileset_8x8 :: TCOD_Tileset where
  "tileset_8x8 =
     \<lparr>tile_width = 8, tile_height = 8, tile_length = 64,
      tiles_capacity = 0, tiles_count = 0, pixels = None,
      character_map_length = 0, character_map = [],
      observer_list = [], virtual_columns = 1, ref_count = 1\<rparr>"

definition tileset_8x8_A :: TCOD_Tileset where
  "tileset_8x8_A =
     \<lparr>tile_width = 8, tile_height = 8, tile_length = 64,
      tiles_capacity = 256, tiles_count = 2,
      pixels = Some (replicate 64 (ColorRGBA 0 0 0 0) @ replicate 64 (ColorRGBA 128 128 128 255)
                     @ replicate 16256 (ColorRGBA 0 0 0 0)),
      character_map_length = 256, character_map = (replicate 256 0)[65 := 1],
      observer_list = [], virtual_columns = 1, ref_count = 1\<rparr>"

text \<open>
  Two decoded images. \<open>font_grey\<close> is one opaque grey pixel, loaded as a grid of one
  tile: \<open>tileset_grey\<close>. \<open>font_pair\<close> is one row of two pixels, loaded as a grid of two
  columns: \<open>tileset_pair\<close>; its first pixel is white with alpha 128 and its second is
  opaque grey.
\<close>

definition font_grey :: "TCOD_ColorRGBA list" where
  "font_grey = [ColorRGBA 128 128 128 255]"

definition tileset_grey :: TCOD_Tileset where
  "tileset_grey =
     \<lparr>tile_width = 1, tile_height = 1, tile_length = 1,
      tiles_capacity = 1, tiles_count = 1,
      pixels = Some [ColorRGBA 255 255 255 128],
      character_map_length = 256, character_map = (replicate 256 0)[0 := 0],
      observer_list = [], virtual_columns = 1, ref_count = 1\<rparr>"

definition font_pair :: "TCOD_ColorRGBA list" where
  "font_pair = [ColorRGBA 255 255 255 128, ColorRGBA 128 128 128 255]"

definition tileset_pair :: TCOD_Tileset where
  "tileset_pair =
     \<lparr>tile_width = 1, tile_height = 1, tile_length = 1,
      tiles_capacity = 2, tiles_count = 2,
      pixels = Some [ColorRGBA 0 0 0 0, ColorRGBA 0 0 0 0],
      character_map_length = 256, character_map = (replicate 256 0)[0 := 0, Suc 0 := 1],
      observer_list = [], virtual_columns = 2, ref_count = 1\<rparr>"


section \<open>Properties\<close>

subsection \<open>The charmap\<close>

lemma charmap_new_length_terminates:
  "0 < n \<Longrightarrow> \<exists>m. charmap_new_length c n = Some m \<and> c < m \<and> n \<le> m"
proof (induction "nat (c + 1 - n)" arbitrary: n rule: less_induct)
  case less
  show ?case
  proof (cases "c \<ge> n")
    case True
    with less.prems have "nat (c + 1 - n * 2) < nat (c + 1 - n)" by simp
    from less.hyps [OF this] less.prems
    obtain m where "charmap_new_length c (n * 2) = Some m" "c < m" "n * 2 \<le> m" by auto
    with True less.prems show ?thesis
      by (subst charmap_new_length.simps) auto
  next
    case False
    then show ?thesis by (subst charmap_new_length.simps) auto
  qed
qed

lemma charmap_new_length_stay: "c < n \<Longrightarrow> charmap_new_length c n = Some n"
  by (subst charmap_new_length.simps) simp

lemma arena_simps [simp]:
  "arena (ts\<lparr>character_map := cm\<rparr>) = arena ts"
  "arena (ts\<lparr>character_map_length := len\<rparr>) = arena ts"
  "arena (ts\<lparr>tiles_count := n\<rparr>) = arena ts"
  "arena (ts\<lparr>tiles_capacity := n\<rparr>) = arena ts"
  "arena (ts\<lparr>observer_list := os\<rparr>) = arena ts"
  "arena (ts\<lparr>ref_count := n\<rparr>) = arena ts"
  "arena (ts\<lparr>pixels := Some ps\<rparr>) = ps"
  by (simp_all add: arena_def)

lemma new_ok: "TCOD_tileset_new A w h = Some ts \<Longrightarrow> 0 \<le> w * h \<Longrightarrow> tileset_ok ts"
  by (auto simp: TCOD_tileset_new_def tileset_ok_def arena_def split: if_splits)

lemma assign_cases:
  assumes "0 \<le> character_map_length ts"
    and "TCOD_tileset_assign_charmap A (Some ts) c t = Some (r, tileset')"
  obtains (fail) "r = -1" "tileset' = Some ts"
  | (ok) m where "r = t" "0 \<le> t" "t < tiles_count ts" "0 \<le> c" "c < m"
      "character_map_length ts \<le> m"
      "tileset' = Some (ts\<lparr>character_map_length := m,
         character_map := (character_map ts @ replicate (nat (m - character_map_length ts)) 0)
                             [nat c := t]\<rparr>)"
proof (cases "t < 0 \<or> t \<ge> tiles_count ts \<or> c < 0")
  case True
  with assms(2) have "r = -1" "tileset' = Some ts"
    by (auto simp: TCOD_tileset_assign_charmap_def split: if_splits)
  then show ?thesis by (rule fail)
next
  case valid: False
  show ?thesis
  proof (cases "c \<ge> character_map_length ts")
    case False
    with valid assms(2) have "r = t"
      "tileset' = Some (ts\<lparr>character_map_length := character_map_length ts,
         character_map := (character_map ts @ replicate (nat (character_map_length ts - character_map_length ts)) 0)
                             [nat c := t]\<rparr>)"
      by (auto simp: TCOD_tileset_assign_charmap_def)
    with valid False show ?thesis by (intro ok [of "character_map_length ts"]) auto
  next
    case True
    let ?n = "if character_map_length ts = 0 then DEFAULT_CHARMAP_LENGTH else character_map_length ts"
    from assms(1) have "0 < ?n" by (auto simp: DEFAULT_CHARMAP_LENGTH_def)
    from charmap_new_length_terminates [OF this, of c] obtain m where
      m: "charmap_new_length c ?n = Some m" "c < m" "?n \<le> m" by blast
    then have le: "character_map_length ts \<le> m" using True by linarith
    show ?thesis
    proof (cases "A (Alloc_charmap m)")
      case False
      with valid True m assms(2) have "r = -1" "tileset' = Some ts"
        by (auto simp: TCOD_tileset_assign_charmap_def)
      then show ?thesis by (rule fail)
    next
      case alloc: True
      with valid True m assms(2) have "r = t"
        "tileset' = Some (ts\<lparr>character_map_length := m,
           character_map := (character_map ts @ replicate (nat (m - character_map_length ts)) 0)
                             [nat c := t]\<rparr>)"
        by (auto simp: TCOD_tileset_assign_charmap_def Let_def)
      with valid m le show ?thesis by (intro ok [of m]) auto
    qed
  qed
qed

lemma assign_returns:
  "0 \<le> character_map_length ts \<Longrightarrow> \<exists>res. TCOD_tileset_assign_charmap A (Some ts) c t = Some res"
  using charmap_new_length_terminates [of "if character_map_length ts = 0 then DEFAULT_CHARMAP_LENGTH else character_map_length ts" c]
  by (auto simp: TCOD_tileset_assign_charmap_def DEFAULT_CHARMAP_LENGTH_def Let_def)

lemma assign_ok:
  assumes "tileset_ok ts" "TCOD_tileset_assign_charmap A (Some ts) c t = Some (r, tileset')"
  shows "\<exists>ts'. tileset' = Some ts' \<and> tileset_ok ts'"
proof -
  from assms(1) have "0 \<le> character_map_length ts" by (simp add: tileset_ok_def)
  from this assms(2) show ?thesis
  proof (cases rule: assign_cases)
    case fail
    with assms(1) show ?thesis by simp
  next
    case (ok m)
    with assms(1) show ?thesis
      by (auto simp: tileset_ok_def list_all_iff dest!: set_update_subset_insert [THEN subsetD])
  qed
qed

subsection \<open>The pixel arena\<close>

lemma memcpy_length:
  "off + n \<le> length dst \<Longrightarrow> n \<le> length src \<Longrightarrow> length (memcpy dst off src n) = length dst"
  by (simp add: memcpy_def)

lemma memcpy_read:
  "off + n \<le> length dst \<Longrightarrow> n \<le> length src \<Longrightarrow> take n (drop off (memcpy dst off src n)) = take n src"
  by (simp add: memcpy_def)

lemma memcpy_before:
  assumes "off' + n' \<le> off" "off + n \<le> length dst"
  shows "take n' (drop off' (memcpy dst off src n)) = take n' (drop off' dst)"
proof -
  from assms have "take n' (drop off' (take off dst @ rest)) = take n' (drop off' (take off dst))"
    for rest by simp
  moreover from assms have "take n' (drop off' (take off dst)) = take n' (drop off' dst)"
    by (simp add: drop_take)
  ultimately show ?thesis unfolding memcpy_def by (simp only:)
qed

lemma memcpy_after:
  "off + n \<le> off' \<Longrightarrow> off + n \<le> length dst \<Longrightarrow> n \<le> length src \<Longrightarrow>
   drop off' (memcpy dst off src n) = drop off' dst"
  by (simp add: memcpy_def min_def)

lemma block_in_arena:
  assumes "tileset_ok ts" "0 \<le> t" "t < tiles_count ts"
  shows "nat (tile_length ts * t) + nat (tile_length ts) \<le> length (arena ts)"
proof -
  from assms have tl: "0 \<le> tile_length ts" and cap: "t + 1 \<le> tiles_capacity ts"
    and len: "int (length (arena ts)) = tiles_capacity ts * tile_length ts"
    by (simp_all add: tileset_ok_def)
  from tl cap have "tile_length ts * (t + 1) \<le> tile_length ts * tiles_capacity ts"
    by (rule mult_left_mono [OF _ _, rotated]) 
  with len have "tile_length ts * t + tile_length ts \<le> int (length (arena ts))"
    by (simp add: algebra_simps)
  moreover from tl assms(2) have "0 \<le> tile_length ts * t" by simp
  with tl have "int (nat (tile_length ts * t) + nat (tile_length ts)) = tile_length ts * t + tile_length ts"
    by simp
  ultimately show ?thesis by linarith
qed

lemma get_charmap_range:
  "tileset_ok ts \<Longrightarrow> TCOD_tileset_get_charmap (Some ts) c = t \<Longrightarrow>
   t = -1 \<or> (0 \<le> t \<and> t < tiles_count ts)"
  by (auto simp: TCOD_tileset_get_charmap_def tileset_ok_def list_all_length)

lemma grow_pixels_props:
  assumes "tileset_ok ts" "tiles_count ts = tiles_capacity ts" "grow_pixels A ts = Some ts1"
  shows "tiles_count ts1 = tiles_count ts" "tiles_count ts1 < tiles_capacity ts1"
    "tiles_count ts = 0 \<longrightarrow> 2 \<le> tiles_capacity ts1" "pixels ts1 \<noteq> None"
    "int (length (arena ts1)) = tiles_capacity ts1 * tile_length ts1"
    "tile_length ts1 = tile_length ts" "character_map ts1 = character_map ts"
    "character_map_length ts1 = character_map_length ts"
  using assms
  by (auto simp: grow_pixels_def tileset_ok_def Let_def DEFAULT_TILES_LENGTH_def nat_diff_distrib
       algebra_simps split: if_splits)

lemma grow_pixels_count: "grow_pixels A ts = Some ts1 \<Longrightarrow> tiles_count ts1 = tiles_count ts"
  by (auto simp: grow_pixels_def Let_def split: if_splits)

lemma generate_cases:
  assumes "TCOD_tileset_generate_charmap A (Some ts) c = Some (r, tileset')"
  obtains (known) "0 < r" "r = TCOD_tileset_get_charmap (Some ts) c" "tileset' = Some ts"
  | (nomem) "TCOD_tileset_get_charmap (Some ts) c \<le> 0" "tiles_count ts = tiles_capacity ts"
      "grow_pixels A ts = None" "r = -1" "tileset' = Some ts"
  | (fresh) ts1 where "TCOD_tileset_get_charmap (Some ts) c \<le> 0"
      "if tiles_count ts = tiles_capacity ts then grow_pixels A ts = Some ts1 else ts1 = ts"
      "TCOD_tileset_assign_charmap A
         (Some (ts1\<lparr>tiles_count := (if tiles_count ts = 0 then 1 else tiles_count ts) + 1\<rparr>)) c
         (if tiles_count ts = 0 then 1 else tiles_count ts) = Some (r, tileset')"
proof (cases "0 < TCOD_tileset_get_charmap (Some ts) c")
  case True
  with assms show ?thesis
    by (intro known) (auto simp: TCOD_tileset_generate_charmap_def Let_def)
next
  case False
  show ?thesis
  proof (cases "if tiles_count ts = tiles_capacity ts then grow_pixels A ts else Some ts")
    case None
    with False assms show ?thesis
      by (intro nomem) (auto simp: TCOD_tileset_generate_charmap_def Let_def split: if_splits)
  next
    case (Some ts1)
    then have c: "tiles_count ts1 = tiles_count ts"
      by (auto simp: grow_pixels_count split: if_splits)
    have a: "TCOD_tileset_assign_charmap A
         (Some (ts1\<lparr>tiles_count := (if tiles_count ts = 0 then 1 else tiles_count ts) + 1\<rparr>)) c
         (if tiles_count ts = 0 then 1 else tiles_count ts) = Some (r, tileset')"
    proof (cases "tiles_count ts = 0")
      case True
      with False Some assms c show ?thesis
        by (simp add: TCOD_tileset_generate_charmap_def Let_def)
    next
      case nz: False
      with False Some assms c show ?thesis
        by (simp add: TCOD_tileset_generate_charmap_def Let_def)
    qed
    from Some have b: "if tiles_count ts = tiles_capacity ts then grow_pixels A ts = Some ts1 else ts1 = ts"
      by (simp split: if_splits)
    from False have "TCOD_tileset_get_charmap (Some ts) c \<le> 0" by simp
    from this b a show ?thesis by (rule fresh)
  qed
qed

lemma generate_fresh_ok:
  assumes "tileset_ok ts"
    and "if tiles_count ts = tiles_capacity ts then grow_pixels A ts = Some ts1 else ts1 = ts"
  shows "tileset_ok (ts1\<lparr>tiles_count := (if tiles_count ts = 0 then 1 else tiles_count ts) + 1\<rparr>)"
proof (cases "tiles_count ts = tiles_capacity ts")
  case True
  with assms have g: "grow_pixels A ts = Some ts1" by simp
  note p = grow_pixels_props [OF assms(1) True g]
  from assms(1) have "0 \<le> tile_length ts" "0 \<le> tiles_count ts"
    "int (length (character_map ts)) = character_map_length ts"
    "list_all (\<lambda>t. 0 \<le> t \<and> t < tiles_count ts) (character_map ts)"
    by (simp_all add: tileset_ok_def)
  with p show ?thesis
    by (auto simp: tileset_ok_def list_all_iff)
next
  case False
  with assms have "ts1 = ts" by simp
  with False assms(1) show ?thesis
    by (auto simp: tileset_ok_def list_all_iff)
qed

lemma generate_ok:
  assumes "tileset_ok ts" "TCOD_tileset_generate_charmap A (Some ts) c = Some (r, tileset')"
  shows "\<exists>ts'. tileset' = Some ts' \<and> tileset_ok ts'"
  using assms(2)
proof (cases rule: generate_cases)
  case (fresh ts1)
  from assign_ok [OF generate_fresh_ok [OF assms(1) fresh(2)] fresh(3)] show ?thesis .
qed (use assms(1) in simp_all)

lemma generate_returns:
  assumes "tileset_ok ts"
  shows "\<exists>res. TCOD_tileset_generate_charmap A (Some ts) c = Some res"
proof -
  have *: "\<exists>res. TCOD_tileset_assign_charmap A
         (Some (ts1\<lparr>tiles_count := n\<rparr>)) c t = Some res"
    if "character_map_length ts1 = character_map_length ts" for ts1 n t
    using that assms assign_returns [of "ts1\<lparr>tiles_count := n\<rparr>" A c t]
    by (simp add: tileset_ok_def)
  show ?thesis
  proof (cases "tiles_count ts = tiles_capacity ts")
    case True
    show ?thesis
    proof (cases "grow_pixels A ts")
      case None
      with True show ?thesis by (simp add: TCOD_tileset_generate_charmap_def Let_def)
    next
      case (Some ts1)
      note p = grow_pixels_props [OF assms True Some]
      from * [OF p(8)] True Some show ?thesis
        by (simp add: TCOD_tileset_generate_charmap_def Let_def p(1))
    qed
  next
    case False
    with * [of ts] show ?thesis
      by (simp add: TCOD_tileset_generate_charmap_def Let_def)
  qed
qed

lemma assign_lookup:
  assumes "tileset_ok ts" "TCOD_tileset_assign_charmap A (Some ts) c t = Some (r, Some ts')"
    and "0 \<le> r"
  shows "r = t" "TCOD_tileset_get_charmap (Some ts') c = t" "0 \<le> t" "t < tiles_count ts'"
proof -
  from assms(1) have len: "int (length (character_map ts)) = character_map_length ts"
    by (simp add: tileset_ok_def)
  then have "0 \<le> character_map_length ts" by linarith
  from this assms(2)
  have "r = t \<and> TCOD_tileset_get_charmap (Some ts') c = t \<and> 0 \<le> t \<and> t < tiles_count ts'"
  proof (cases rule: assign_cases)
    case fail
    with assms(3) show ?thesis by simp
  next
    case (ok m)
    from ok(4,5,6) len have "nat c < length (character_map ts @ replicate (nat (m - character_map_length ts)) 0)"
      by (simp add: nat_less_iff)
    with ok show ?thesis
      by (simp add: TCOD_tileset_get_charmap_def)
  qed
  then show "r = t" "TCOD_tileset_get_charmap (Some ts') c = t" "0 \<le> t" "t < tiles_count ts'"
    by simp_all
qed

lemma assign_frame:
  assumes "0 \<le> character_map_length ts"
    and "TCOD_tileset_assign_charmap A (Some ts) c t = Some (r, Some ts')"
  shows "tile_length ts' = tile_length ts" "observer_list ts' = observer_list ts"
    "pixels ts' = pixels ts" "tiles_count ts' = tiles_count ts"
    "tiles_capacity ts' = tiles_capacity ts" "tile_width ts' = tile_width ts"
    "tile_height ts' = tile_height ts" "ref_count ts' = ref_count ts"
    "virtual_columns ts' = virtual_columns ts"
  using assms by (cases rule: assign_cases; simp)+

lemma grow_pixels_frame:
  assumes "grow_pixels A ts = Some ts1"
  shows "tile_length ts1 = tile_length ts" "observer_list ts1 = observer_list ts"
    "tile_width ts1 = tile_width ts" "tile_height ts1 = tile_height ts"
    "ref_count ts1 = ref_count ts" "virtual_columns ts1 = virtual_columns ts"
  using assms by (auto simp: grow_pixels_def Let_def split: if_splits)

lemma generate_frame:
  assumes "tileset_ok ts" "TCOD_tileset_generate_charmap A (Some ts) c = Some (r, Some ts')"
  shows "tile_length ts' = tile_length ts" "observer_list ts' = observer_list ts"
    "tile_width ts' = tile_width ts" "tile_height ts' = tile_height ts"
    "ref_count ts' = ref_count ts" "virtual_columns ts' = virtual_columns ts"
proof -
  have "tile_length ts' = tile_length ts \<and> observer_list ts' = observer_list ts \<and>
    tile_width ts' = tile_width ts \<and> tile_height ts' = tile_height ts \<and>
    ref_count ts' = ref_count ts \<and> virtual_columns ts' = virtual_columns ts"
    using assms(2)
  proof (cases rule: generate_cases)
    case (fresh ts1)
    let ?ts3 = "ts1\<lparr>tiles_count := (if tiles_count ts = 0 then 1 else tiles_count ts) + 1\<rparr>"
    from generate_fresh_ok [OF assms(1) fresh(2)] have "0 \<le> character_map_length ?ts3"
      by (simp add: tileset_ok_def)
    note f = assign_frame [OF this fresh(3)]
    from fresh(2) have "tile_length ts1 = tile_length ts \<and> observer_list ts1 = observer_list ts \<and>
      tile_width ts1 = tile_width ts \<and> tile_height ts1 = tile_height ts \<and>
      ref_count ts1 = ref_count ts \<and> virtual_columns ts1 = virtual_columns ts"
      by (auto simp: grow_pixels_frame split: if_splits)
    with f show ?thesis by simp
  qed simp_all
  then show "tile_length ts' = tile_length ts" "observer_list ts' = observer_list ts"
    "tile_width ts' = tile_width ts" "tile_height ts' = tile_height ts"
    "ref_count ts' = ref_count ts" "virtual_columns ts' = virtual_columns ts"
    by simp_all
qed

lemma generate_lookup:
  assumes "tileset_ok ts" "TCOD_tileset_generate_charmap A (Some ts) c = Some (r, Some ts')"
    and "0 \<le> r"
  shows "TCOD_tileset_get_charmap (Some ts') c = r" "r < tiles_count ts'"
proof -
  have "TCOD_tileset_get_charmap (Some ts') c = r \<and> r < tiles_count ts'"
    using assms(2)
  proof (cases rule: generate_cases)
    case known
    with get_charmap_range [OF assms(1), of c r] show ?thesis by auto
  next
    case nomem
    with assms(3) show ?thesis by simp
  next
    case (fresh ts1)
    from assign_lookup [OF generate_fresh_ok [OF assms(1) fresh(2)] fresh(3) assms(3)]
    show ?thesis by simp
  qed
  then show "TCOD_tileset_get_charmap (Some ts') c = r" "r < tiles_count ts'" by simp_all
qed

lemma notify_observers_status:
  "notify_observers obs t c = (st, evs) \<Longrightarrow> st \<noteq> 0 \<Longrightarrow> evs \<noteq> []"
  by (induction obs arbitrary: st evs)
     (auto simp: Let_def split: option.splits if_splits prod.splits)

lemma set_tile_cases:
  assumes "tileset_ok ts"
    and "TCOD_tileset_set_tile_' A (Some ts) c buffer = Some (st, tileset', evs)"
  obtains (failed) ts1 where "st < 0" "evs = []" "tileset' = Some ts1" "tileset_ok ts1"
      "TCOD_tileset_get_charmap (Some ts) c < 0"
      "TCOD_tileset_generate_charmap A (Some ts) c = Some (st, Some ts1)"
  | (written) t ts1 where "0 \<le> t" "t < tiles_count ts1" "tileset_ok ts1"
      "TCOD_tileset_get_charmap (Some ts1) c = t"
      "if TCOD_tileset_get_charmap (Some ts) c < 0
       then TCOD_tileset_generate_charmap A (Some ts) c = Some (t, Some ts1)
       else ts1 = ts"
      "tileset' = Some (ts1\<lparr>pixels := Some (memcpy (arena ts1) (nat (tile_length ts1 * t))
                                              buffer (nat (tile_length ts1)))\<rparr>)"
      "notify_observers (observer_list ts) t c = (st, evs)"
proof (cases "TCOD_tileset_get_charmap (Some ts) c < 0")
  case False
  let ?t = "TCOD_tileset_get_charmap (Some ts) c"
  from False get_charmap_range [OF assms(1), of c ?t] have r: "0 \<le> ?t" "?t < tiles_count ts"
    by auto
  from False assms(2) have
    "tileset' = Some (ts\<lparr>pixels := Some (memcpy (arena ts) (nat (tile_length ts * ?t))
                                              buffer (nat (tile_length ts)))\<rparr>)"
    "notify_observers (observer_list ts) ?t c = (st, evs)"
    by (auto simp: TCOD_tileset_set_tile_'_def Let_def split: prod.splits)
  with r False assms(1) show ?thesis by (intro written [of ?t ts]) simp_all
next
  case True
  from generate_returns [OF assms(1), of A c] obtain r tileset1 where
    g: "TCOD_tileset_generate_charmap A (Some ts) c = Some (r, tileset1)" by force
  from generate_ok [OF assms(1) g] obtain ts1 where ts1: "tileset1 = Some ts1" "tileset_ok ts1"
    by blast
  show ?thesis
  proof (cases "r < 0")
    case neg: True
    with True g ts1 assms(2) have "st = r" "evs = []" "tileset' = Some ts1"
      by (auto simp: TCOD_tileset_set_tile_'_def Let_def)
    with neg True g ts1 show ?thesis by (intro failed [of ts1]) simp_all
  next
    case pos: False
    then have "0 \<le> r" by simp
    note l = generate_lookup [OF assms(1) g [unfolded ts1(1)] this]
    note f = generate_frame [OF assms(1) g [unfolded ts1(1)]]
    from pos True g ts1 assms(2) f(2) have
      "tileset' = Some (ts1\<lparr>pixels := Some (memcpy (arena ts1) (nat (tile_length ts1 * r))
                                              buffer (nat (tile_length ts1)))\<rparr>)"
      "notify_observers (observer_list ts) r c = (st, evs)"
      by (auto simp: TCOD_tileset_set_tile_'_def Let_def split: prod.splits)
    with pos True g ts1 l show ?thesis by (intro written [of r ts1]) simp_all
  qed
qed

lemma set_tile_returns:
  assumes "tileset_ok ts"
  shows "\<exists>res. TCOD_tileset_set_tile_' A (Some ts) c buffer = Some res"
proof (cases "TCOD_tileset_get_charmap (Some ts) c < 0")
  case False
  then show ?thesis
    by (simp add: TCOD_tileset_set_tile_'_def Let_def split: prod.splits)
next
  case True
  from generate_returns [OF assms, of A c] obtain r tileset1 where
    g: "TCOD_tileset_generate_charmap A (Some ts) c = Some (r, tileset1)" by force
  from generate_ok [OF assms g] obtain ts1 where ts1: "tileset1 = Some ts1" by blast
  with True g show ?thesis
    by (simp add: TCOD_tileset_set_tile_'_def Let_def split: prod.splits)
qed

lemma get_charmap_pixels [simp]:
  "TCOD_tileset_get_charmap (Some (ts\<lparr>pixels := p\<rparr>)) c = TCOD_tileset_get_charmap (Some ts) c"
  by (simp add: TCOD_tileset_get_charmap_def)

lemma get_after_write:
  assumes "tileset_ok ts1" "0 \<le> t" "t < tiles_count ts1" "TCOD_tileset_get_charmap (Some ts1) c = t"
    and "nat (tile_length ts1) \<le> length block"
  shows "TCOD_tileset_get_tile_'
           (Some (ts1\<lparr>pixels := Some (memcpy (arena ts1) (nat (tile_length ts1 * t))
                                         block (nat (tile_length ts1)))\<rparr>)) c (Some out)
         = (0, Some (take (nat (tile_length ts1)) block @ drop (nat (tile_length ts1)) out))"
proof -
  let ?ts' = "ts1\<lparr>pixels := Some (memcpy (arena ts1) (nat (tile_length ts1 * t))
                                         block (nat (tile_length ts1)))\<rparr>"
  from assms(4) have c: "TCOD_tileset_get_charmap (Some ?ts') c = t"
    by simp
  with assms(2) have p: "TCOD_tileset_get_tile (Some ?ts') c = Some (nat (tile_length ts1 * t))"
    by (simp add: TCOD_tileset_get_tile_def Let_def)
  note b = block_in_arena [OF assms(1-3)]
  from memcpy_read [OF b assms(5)] p show ?thesis
    by (simp add: TCOD_tileset_get_tile_'_def memcpy_def [of out])
qed

subsection \<open>Writing, then reading\<close>

text \<open>
  C4. If \<^verbatim>\<open>TCOD_tileset_set_tile_\<close> returns 0 for a codepoint and a block of \<open>tile_length\<close>
  pixels, mapped before or not and with any observers, then \<^verbatim>\<open>TCOD_tileset_get_tile_\<close> for
  the codepoint returns 0 right after and the first \<open>tile_length\<close> pixels of its buffer
  are the block.
\<close>

theorem set_tile_get_tile_roundtrip:
  assumes "tileset_ok ts" and "nat (tile_length ts) \<le> length block"
    and "TCOD_tileset_set_tile_' A (Some ts) c block = Some (0, tileset', evs)"
  shows "\<exists>ts'. tileset' = Some ts' \<and> tile_length ts' = tile_length ts \<and>
           TCOD_tileset_get_tile_' (Some ts') c (Some out) =
             (0, Some (take (nat (tile_length ts)) block @ drop (nat (tile_length ts)) out))"
  using assms(1,3)
proof (cases rule: set_tile_cases)
  case (failed ts1)
  then show ?thesis by simp
next
  case (written t ts1)
  have tl: "tile_length ts1 = tile_length ts"
  proof (cases "TCOD_tileset_get_charmap (Some ts) c < 0")
    case True
    with written(5) generate_frame(1) [OF assms(1)] show ?thesis by simp
  next
    case False
    with written(5) show ?thesis by simp
  qed
  with assms(2) have "nat (tile_length ts1) \<le> length block" by simp
  from get_after_write [OF written(3,1,2,4) this, of out] written(6) tl show ?thesis by simp
qed

lemma tileset_1x1_ok: "tileset_ok tileset_1x1"
  by (simp add: tileset_ok_def tileset_1x1_def arena_def)

lemma tileset_1x1_new: "TCOD_tileset_new alloc_ok 1 1 = Some tileset_1x1"
  by (simp add: TCOD_tileset_new_def tileset_1x1_def alloc_ok_def)

lemma tileset_1x1_set_tile:
  "TCOD_tileset_set_tile_' alloc_ok (Some tileset_1x1) 65 [ColorRGBA 1 2 3 4]
     = Some (0, Some tileset_1x1_A, [])"
  by (simp add: TCOD_tileset_set_tile_'_def TCOD_tileset_get_charmap_def tileset_1x1_def
      tileset_1x1_A_def alloc_ok_def TCOD_tileset_generate_charmap_def grow_pixels_def Let_def
      TCOD_tileset_assign_charmap_def DEFAULT_TILES_LENGTH_def DEFAULT_CHARMAP_LENGTH_def
      charmap_new_length.simps arena_def memcpy_def)

theorem set_tile_get_tile_roundtrip_witness:
  "tileset_ok tileset_1x1 \<and>
   TCOD_tileset_set_tile_' alloc_ok (Some tileset_1x1) 65 [ColorRGBA 1 2 3 4]
     = Some (0, Some tileset_1x1_A, []) \<and>
   TCOD_tileset_get_tile_' (Some tileset_1x1_A) 65 (Some [ColorRGBA 9 9 9 9])
     = (0, Some [ColorRGBA 1 2 3 4])"
proof -
  have l: "nat (tile_length tileset_1x1) \<le> length [ColorRGBA 1 2 3 4]"
    by (simp add: tileset_1x1_def)
  from set_tile_get_tile_roundtrip [OF tileset_1x1_ok l tileset_1x1_set_tile,
      of "[ColorRGBA 9 9 9 9]"]
  have "TCOD_tileset_get_tile_' (Some tileset_1x1_A) 65 (Some [ColorRGBA 9 9 9 9])
     = (0, Some [ColorRGBA 1 2 3 4])"
    by (simp add: tileset_1x1_def)
  with tileset_1x1_ok tileset_1x1_set_tile show ?thesis
    by blast
qed

lemma charmap_entry:
  assumes "tileset_ok ts" "0 \<le> c" "c < character_map_length ts"
  shows "TCOD_tileset_get_charmap (Some ts) c = character_map ts ! nat c"
    "0 \<le> character_map ts ! nat c" "character_map ts ! nat c < tiles_count ts"
    "pixels ts \<noteq> None"
proof -
  from assms have n: "nat c < length (character_map ts)"
    by (simp add: tileset_ok_def nat_less_iff)
  with assms(1) show r: "0 \<le> character_map ts ! nat c" "character_map ts ! nat c < tiles_count ts"
    by (simp_all add: tileset_ok_def list_all_length)
  from assms show "TCOD_tileset_get_charmap (Some ts) c = character_map ts ! nat c"
    by (simp add: TCOD_tileset_get_charmap_def)
  from r assms(1) show "pixels ts \<noteq> None"
    by (auto simp: tileset_ok_def)
qed

subsection \<open>Reading an unassigned codepoint\<close>

text \<open>
  C10. For a codepoint inside the charmap whose entry is the default 0,
  \<^verbatim>\<open>TCOD_tileset_get_tile_\<close> returns 0, not -1, and copies the block of tile 0 into a
  buffer that is not null. Assigning tile 0 to such a codepoint succeeds and changes
  nothing, so no read tells the two apart.
\<close>

theorem get_tile_unassigned_reads_blank:
  assumes "tileset_ok ts" "0 \<le> c" "c < character_map_length ts"
    and "character_map ts ! nat c = 0"
  shows "TCOD_tileset_get_tile_' (Some ts) c None = (0, None) \<and>
         TCOD_tileset_get_tile_' (Some ts) c (Some buffer) =
           (0, Some (tile_block ts 0 @ drop (nat (tile_length ts)) buffer)) \<and>
         TCOD_tileset_assign_charmap A (Some ts) c 0 = Some (0, Some ts)"
proof -
  note e = charmap_entry [OF assms(1-3)]
  from e(1,4) assms(4) have t: "TCOD_tileset_get_tile (Some ts) c = Some 0"
    by (simp add: TCOD_tileset_get_tile_def)
  then have "TCOD_tileset_get_tile_' (Some ts) c None = (0, None)"
    and "TCOD_tileset_get_tile_' (Some ts) c (Some buffer) =
           (0, Some (tile_block ts 0 @ drop (nat (tile_length ts)) buffer))"
    by (simp_all add: TCOD_tileset_get_tile_'_def memcpy_def tile_block_def)
  moreover from assms(4) have "(character_map ts)[nat c := 0] = character_map ts"
    by (metis list_update_id)
  with e(3) assms have "TCOD_tileset_assign_charmap A (Some ts) c 0 = Some (0, Some ts)"
    by (simp add: TCOD_tileset_assign_charmap_def)
  ultimately show ?thesis by simp
qed

lemma tileset_1x1_A_ok: "tileset_ok tileset_1x1_A"
  by (simp add: tileset_ok_def tileset_1x1_A_def arena_def list_all_length nth_list_update)

theorem get_tile_unassigned_reads_blank_witness:
  "tileset_ok tileset_1x1_A \<and> (0::int) \<le> 66 \<and> 66 < character_map_length tileset_1x1_A \<and>
   character_map tileset_1x1_A ! nat 66 = 0 \<and>
   TCOD_tileset_get_tile_' (Some tileset_1x1_A) 66 None = (0, None) \<and>
   TCOD_tileset_get_tile_' (Some tileset_1x1_A) 66 (Some [ColorRGBA 9 9 9 9]) =
     (0, Some [ColorRGBA 0 0 0 0]) \<and>
   TCOD_tileset_assign_charmap alloc_ok (Some tileset_1x1_A) 66 0 = Some (0, Some tileset_1x1_A)"
proof -
  have h: "(0::int) \<le> 66" "66 < character_map_length tileset_1x1_A"
    "character_map tileset_1x1_A ! nat 66 = 0"
    by (simp_all add: tileset_1x1_A_def)
  have b: "tile_block tileset_1x1_A 0 = [ColorRGBA 0 0 0 0]" "tile_length tileset_1x1_A = 1"
    by (simp_all add: tile_block_def tileset_1x1_A_def arena_def)
  from get_tile_unassigned_reads_blank [OF tileset_1x1_A_ok h, of "[ColorRGBA 9 9 9 9]" alloc_ok]
  show ?thesis using h tileset_1x1_A_ok by (simp add: b)
qed



lemma set_tile_tile_length:
  assumes "tileset_ok ts"
    and "if TCOD_tileset_get_charmap (Some ts) c < 0
       then TCOD_tileset_generate_charmap A (Some ts) c = Some (t, Some ts1)
       else ts1 = ts"
  shows "tile_length ts1 = tile_length ts"
  using assms generate_frame(1) [OF assms(1), of A c t ts1] by (simp split: if_splits)








subsection \<open>Observers\<close>





subsection \<open>Releasing a tileset\<close>

lemma delete_observers_trace:
  "delete_observers ts =
     (ts\<lparr>observer_list := []\<rparr>,
      concat (map (\<lambda>ob. (if on_observer_delete ob then [Observer_deleted (observer_addr ob)]
                           else []) @ [Observer_freed (observer_addr ob)])
                (observer_list ts)))"
proof (induction "observer_list ts" arbitrary: ts)
  case Nil
  then have "observer_list ts = []" by simp
  then show ?case by (subst delete_observers.simps) simp
next
  case (Cons it rest)
  from Cons.hyps(2) have l: "observer_list ts = it # rest" by simp
  let ?ts' = "ts\<lparr>observer_list := rest\<rparr>"
  have "rest = observer_list ?ts'" by simp
  note ih = Cons.hyps(1) [OF this]
  from l have d: "TCOD_tileset_observer_delete ts (Some (observer_addr it)) =
    (?ts', (if on_observer_delete it then [Observer_deleted (observer_addr it)] else [])
             @ [Observer_freed (observer_addr it)])"
    by (simp add: TCOD_tileset_observer_delete_def)
  show ?case
    by (subst delete_observers.simps) (simp add: l d ih)
qed

text \<open>
  C8. \<^verbatim>\<open>TCOD_tileset_delete\<close> on a tileset with \<open>ref_count = 2\<close> only decrements the
  count: nothing is invoked or freed. With \<open>ref_count = 1\<close> it unlinks every observer in
  list order, invoking the deletion hook of each observer that has one exactly once and
  freeing the node, and frees the pixels, the charmap and the tileset after them.
\<close>

theorem release_keeps_or_frees:
  "(ref_count ts = 2 \<longrightarrow>
      TCOD_tileset_delete (Some ts) = (Some (ts\<lparr>ref_count := 1\<rparr>), [])) \<and>
   (ref_count ts = 1 \<longrightarrow>
      TCOD_tileset_delete (Some ts) =
        (None,
         concat (map (\<lambda>ob. (if on_observer_delete ob then [Observer_deleted (observer_addr ob)]
                              else []) @ [Observer_freed (observer_addr ob)])
                   (observer_list ts))
         @ [Pixels_freed, Charmap_freed, Tileset_freed]))"
  by (simp add: TCOD_tileset_delete_def Let_def delete_observers_trace)

theorem release_keeps_or_frees_witness:
  "ref_count (tileset_observed_A\<lparr>ref_count := 2\<rparr>) = 2 \<and>
   TCOD_tileset_delete (Some (tileset_observed_A\<lparr>ref_count := 2\<rparr>))
     = (Some tileset_observed_A, []) \<and>
   ref_count tileset_observed_A = 1 \<and>
   TCOD_tileset_delete (Some tileset_observed_A)
     = (None, [Observer_deleted 2, Observer_freed 2, Observer_freed 1,
               Pixels_freed, Charmap_freed, Tileset_freed])"
proof -
  have r: "ref_count tileset_observed_A = 1"
    by (simp add: tileset_observed_A_def tileset_1x1_A_def)
  have o: "observer_list tileset_observed_A = [observer_2, observer_1]"
    by (simp add: tileset_observed_A_def)
  have u: "tileset_observed_A\<lparr>ref_count := 2, ref_count := 1\<rparr> = tileset_observed_A"
    by (simp add: tileset_observed_A_def tileset_1x1_A_def)
  from release_keeps_or_frees [of "tileset_observed_A\<lparr>ref_count := 2\<rparr>"]
    release_keeps_or_frees [of tileset_observed_A]
  show ?thesis
    by (simp add: r o u observer_1_def observer_2_def)
qed

subsection \<open>Assigning codepoints\<close>

lemma assign_charmap_after:
  assumes "tileset_ok ts" "TCOD_tileset_assign_charmap A (Some ts) c t = Some (r, Some ts')"
    and "0 \<le> r"
  shows "character_map_length ts \<le> character_map_length ts'"
    and "character_map ts' =
           (character_map ts @ replicate (nat (character_map_length ts' - character_map_length ts)) 0)
             [nat c := t]"
    and "0 \<le> c" and "t < tiles_count ts"
proof -
  from assms(1) have len: "int (length (character_map ts)) = character_map_length ts"
    by (simp add: tileset_ok_def)
  then have "0 \<le> character_map_length ts" by linarith
  from this assms(2)
  have "character_map_length ts \<le> character_map_length ts' \<and> character_map ts' =
           (character_map ts @ replicate (nat (character_map_length ts' - character_map_length ts)) 0)
             [nat c := t] \<and> 0 \<le> c \<and> t < tiles_count ts"
  proof (cases rule: assign_cases)
    case fail
    with assms(3) show ?thesis by simp
  next
    case (ok m)
    then show ?thesis by simp
  qed
  then show "character_map_length ts \<le> character_map_length ts'"
    and "character_map ts' =
           (character_map ts @ replicate (nat (character_map_length ts' - character_map_length ts)) 0)
             [nat c := t]"
    and "0 \<le> c" and "t < tiles_count ts"
    by simp_all
qed

lemma assign_charmap_others:
  assumes "tileset_ok ts" "TCOD_tileset_assign_charmap A (Some ts) c t = Some (r, Some ts')"
    and "d \<noteq> c"
  shows "TCOD_tileset_get_charmap (Some ts') d =
           (if d < 0 \<or> character_map_length ts' \<le> d then -1
            else if d < character_map_length ts then TCOD_tileset_get_charmap (Some ts) d
            else 0)"
proof -
  from assms(1) have len: "int (length (character_map ts)) = character_map_length ts"
    by (simp add: tileset_ok_def)
  then have "0 \<le> character_map_length ts" by linarith
  from this assms(2) show ?thesis
  proof (cases rule: assign_cases)
    case fail
    then show ?thesis by (simp add: TCOD_tileset_get_charmap_def)
  next
    case (ok m)
    show ?thesis
    proof (cases "d < 0 \<or> m \<le> d")
      case True
      with ok show ?thesis by (auto simp: TCOD_tileset_get_charmap_def)
    next
      case False
      with assms(3) ok(4) have ne: "nat c \<noteq> nat d" by (simp add: nat_eq_iff)
      from False len have "nat d < length (character_map ts) \<longleftrightarrow> d < character_map_length ts"
        by (simp add: nat_less_iff)
      moreover from False len ok(6)
      have "\<not> d < character_map_length ts \<Longrightarrow>
              nat d - length (character_map ts) < nat (m - character_map_length ts)"
        by (simp add: nat_less_iff)
      ultimately show ?thesis using False ok ne
        by (auto simp: TCOD_tileset_get_charmap_def nth_append)
    qed
  qed
qed

lemma assign_charmap_calls_keep:
  assumes "tileset_ok ts" "TCOD_tileset_get_charmap (Some ts) c = t" "0 \<le> t"
    and "c \<notin> fst ` set calls" "assign_charmap_calls A ts calls = Some ts''"
  shows "TCOD_tileset_get_charmap (Some ts'') c = t"
  using assms
proof (induction calls arbitrary: ts)
  case Nil
  then show ?case by simp
next
  case (Cons call calls)
  obtain d u where call: "call = (d, u)" by force
  with Cons.prems(5) obtain r ts' where
    a: "TCOD_tileset_assign_charmap A (Some ts) d u = Some (r, Some ts')"
    and rest: "assign_charmap_calls A ts' calls = Some ts''"
    by (auto split: option.splits prod.splits)
  from assign_ok [OF Cons.prems(1) a] have ok': "tileset_ok ts'" by simp
  from call Cons.prems(4) have ne: "c \<noteq> d" and notin: "c \<notin> fst ` set calls" by auto
  from Cons.prems(2,3) have inr: "\<not> (c < 0 \<or> character_map_length ts \<le> c)"
    by (auto simp: TCOD_tileset_get_charmap_def split: if_splits)
  from assign_ok [OF Cons.prems(1) a] Cons.prems(1)
  have "0 \<le> character_map_length ts" by (simp add: tileset_ok_def)
  from this a have "character_map_length ts \<le> character_map_length ts'"
    by (cases rule: assign_cases) simp_all
  with inr assign_charmap_others [OF Cons.prems(1) a ne] Cons.prems(2)
  have "TCOD_tileset_get_charmap (Some ts') c = t" by simp
  from Cons.IH [OF ok' this Cons.prems(3) notin rest] show ?case .
qed

text \<open>
  C6. After a successful \<^verbatim>\<open>TCOD_tileset_assign_charmap\<close> of codepoint \<open>c\<close> to tile \<open>t\<close>
  (which needs \<open>0 \<le> c\<close> and \<open>0 \<le> t < tiles_count\<close>) the lookup of \<open>c\<close> returns \<open>t\<close>, at
  once and after any further calls for other codepoints. The charmap after the call is
  the old one, extended with zeros up to the new length, with the entry of \<open>c\<close> set: every
  other codepoint inside the old charmap keeps its entry and the new entries are 0.
\<close>

theorem assign_charmap_then_lookup:
  assumes "tileset_ok ts" and "TCOD_tileset_assign_charmap A (Some ts) c t = Some (r, Some ts')"
    and "0 \<le> r"
  shows "r = t \<and> 0 \<le> c \<and> 0 \<le> t \<and> t < tiles_count ts \<and>
         TCOD_tileset_get_charmap (Some ts') c = t \<and>
         (\<forall>calls ts''. c \<notin> fst ` set calls \<longrightarrow> assign_charmap_calls A ts' calls = Some ts''
            \<longrightarrow> TCOD_tileset_get_charmap (Some ts'') c = t) \<and>
         character_map_length ts \<le> character_map_length ts' \<and>
         character_map ts' =
           (character_map ts @ replicate (nat (character_map_length ts' - character_map_length ts)) 0)
             [nat c := t] \<and>
         (\<forall>d. d \<noteq> c \<longrightarrow>
            TCOD_tileset_get_charmap (Some ts') d =
              (if d < 0 \<or> character_map_length ts' \<le> d then -1
               else if d < character_map_length ts then TCOD_tileset_get_charmap (Some ts) d
               else 0))"
proof -
  note l = assign_lookup [OF assms]
  note a = assign_charmap_after [OF assms]
  from assign_ok [OF assms(1,2)] have ok': "tileset_ok ts'" by simp
  have "TCOD_tileset_get_charmap (Some ts'') c = t"
    if "c \<notin> fst ` set calls" "assign_charmap_calls A ts' calls = Some ts''" for calls ts''
    using assign_charmap_calls_keep [OF ok' l(2,3) that] .
  moreover have "TCOD_tileset_get_charmap (Some ts') d =
              (if d < 0 \<or> character_map_length ts' \<le> d then -1
               else if d < character_map_length ts then TCOD_tileset_get_charmap (Some ts) d
               else 0)" if "d \<noteq> c" for d
    using assign_charmap_others [OF assms(1,2) that] .
  ultimately show ?thesis using l a by blast
qed


lemma tileset_1x1_A_assign:
  "TCOD_tileset_assign_charmap alloc_ok (Some tileset_1x1_A) 300 1 = Some (1, Some tileset_1x1_B)"
  by (simp add: TCOD_tileset_assign_charmap_def tileset_1x1_A_def tileset_1x1_B_def alloc_ok_def
      DEFAULT_CHARMAP_LENGTH_def charmap_new_length.simps Let_def)

lemma tileset_1x1_B_calls:
  "assign_charmap_calls alloc_ok tileset_1x1_B [(70, 1)] =
     Some (tileset_1x1_B\<lparr>character_map := (character_map tileset_1x1_B)[70 := 1]\<rparr>)"
  by (simp add: TCOD_tileset_assign_charmap_def tileset_1x1_A_def tileset_1x1_B_def alloc_ok_def)

theorem assign_charmap_then_lookup_witness:
  "tileset_ok tileset_1x1_A \<and>
   TCOD_tileset_assign_charmap alloc_ok (Some tileset_1x1_A) 300 1 = Some (1, Some tileset_1x1_B) \<and>
   (0::int) \<le> 1 \<and>
   TCOD_tileset_get_charmap (Some tileset_1x1_B) 300 = 1 \<and>
   (300::int) \<notin> fst ` set [(70, 1::int)] \<and>
   (\<exists>ts''. assign_charmap_calls alloc_ok tileset_1x1_B [(70, 1)] = Some ts'' \<and>
           TCOD_tileset_get_charmap (Some ts'') 300 = 1) \<and>
   character_map_length tileset_1x1_A = 256 \<and> character_map_length tileset_1x1_B = 512 \<and>
   TCOD_tileset_get_charmap (Some tileset_1x1_B) 65 = TCOD_tileset_get_charmap (Some tileset_1x1_A) 65 \<and>
   TCOD_tileset_get_charmap (Some tileset_1x1_B) 400 = 0"
proof -
  have p: "(0::int) \<le> 1" by simp
  have n: "(300::int) \<notin> fst ` set [(70, 1::int)]" by simp
  have la: "character_map_length tileset_1x1_A = 256"
    by (simp add: tileset_1x1_A_def)
  have lb: "character_map_length tileset_1x1_B = 512"
    by (simp add: tileset_1x1_B_def)
  note t = assign_charmap_then_lookup [OF tileset_1x1_A_ok tileset_1x1_A_assign p]
  from t have "TCOD_tileset_get_charmap (Some tileset_1x1_B) 300 = 1" by blast
  moreover from t n tileset_1x1_B_calls
  have "\<exists>ts''. assign_charmap_calls alloc_ok tileset_1x1_B [(70, 1)] = Some ts'' \<and>
           TCOD_tileset_get_charmap (Some ts'') 300 = 1" by blast
  moreover from t have "\<forall>d. d \<noteq> 300 \<longrightarrow>
            TCOD_tileset_get_charmap (Some tileset_1x1_B) d =
              (if d < 0 \<or> character_map_length tileset_1x1_B \<le> d then -1
               else if d < character_map_length tileset_1x1_A
                    then TCOD_tileset_get_charmap (Some tileset_1x1_A) d
               else 0)" by blast
  then have "TCOD_tileset_get_charmap (Some tileset_1x1_B) 65 = TCOD_tileset_get_charmap (Some tileset_1x1_A) 65"
    "TCOD_tileset_get_charmap (Some tileset_1x1_B) 400 = 0"
    by (simp_all add: la lb)
  ultimately show ?thesis using tileset_1x1_A_ok tileset_1x1_A_assign la lb by simp
qed

subsection \<open>The write path\<close>

text \<open>
  C1. Writing a tile for a codepoint inside the charmap that was assigned tile 0 should
  allocate a new tile id for it: \<^verbatim>\<open>TCOD_tileset_generate_charmap\<close> takes the entry 0 for
  not generated and keeps tile 0 blank. The code does not: \<^verbatim>\<open>TCOD_tileset_set_tile_\<close>
  generates only when the lookup is negative, so with the entry 0 it copies the block
  into tile 0, the blank tile, and leaves \<open>tiles_count\<close> and the charmap as they are.
  Here on \<open>tileset_1x1_A\<close> and the codepoint 66, after its assignment to tile 0.
\<close>

theorem set_tile_zero_entry_overwrites_blank_tile:
  "TCOD_tileset_new alloc_ok 1 1 = Some tileset_1x1 \<and>
   TCOD_tileset_set_tile_' alloc_ok (Some tileset_1x1) 65 [ColorRGBA 1 2 3 4]
     = Some (0, Some tileset_1x1_A, []) \<and>
   TCOD_tileset_assign_charmap alloc_ok (Some tileset_1x1_A) 66 0 = Some (0, Some tileset_1x1_A) \<and>
   TCOD_tileset_set_tile_' alloc_ok (Some tileset_1x1_A) 66 [ColorRGBA 5 6 7 8]
     = Some (0, Some (tileset_1x1_A\<lparr>pixels :=
          Some (ColorRGBA 5 6 7 8 # ColorRGBA 1 2 3 4 # replicate 254 (ColorRGBA 0 0 0 0))\<rparr>), []) \<and>
   tiles_count tileset_1x1_A = 2 \<and> character_map tileset_1x1_A ! 66 = 0"
proof -
  have "TCOD_tileset_assign_charmap alloc_ok (Some tileset_1x1_A) 66 0 = Some (0, Some tileset_1x1_A)"
    by (simp add: TCOD_tileset_assign_charmap_def tileset_1x1_A_def list_update_same_conv)
  moreover have "TCOD_tileset_set_tile_' alloc_ok (Some tileset_1x1_A) 66 [ColorRGBA 5 6 7 8]
     = Some (0, Some (tileset_1x1_A\<lparr>pixels :=
          Some (ColorRGBA 5 6 7 8 # ColorRGBA 1 2 3 4 # replicate 254 (ColorRGBA 0 0 0 0))\<rparr>), [])"
    by (simp add: TCOD_tileset_set_tile_'_def TCOD_tileset_get_charmap_def tileset_1x1_A_def
        arena_def memcpy_def)
  moreover have "tiles_count tileset_1x1_A = 2" "character_map tileset_1x1_A ! 66 = 0"
    by (simp_all add: tileset_1x1_A_def)
  ultimately show ?thesis
    using tileset_1x1_new tileset_1x1_set_tile by simp
qed

lemma tileset_8x8_new: "TCOD_tileset_new alloc_ok 8 8 = Some tileset_8x8"
  by (simp add: TCOD_tileset_new_def tileset_8x8_def alloc_ok_def)

lemma tileset_8x8_set_tile:
  "TCOD_tileset_set_tile_' alloc_ok (Some tileset_8x8) 65 (replicate 64 (ColorRGBA 128 128 128 255))
     = Some (0, Some tileset_8x8_A, [])"
  by (simp add: TCOD_tileset_set_tile_'_def TCOD_tileset_get_charmap_def tileset_8x8_def
      tileset_8x8_A_def alloc_ok_def TCOD_tileset_generate_charmap_def grow_pixels_def Let_def
      TCOD_tileset_assign_charmap_def DEFAULT_TILES_LENGTH_def DEFAULT_CHARMAP_LENGTH_def
      charmap_new_length.simps arena_def memcpy_def)

lemma tileset_8x8_get_tile:
  "TCOD_tileset_get_tile_' (Some tileset_8x8_A) 65 (Some (replicate 64 (ColorRGBA 0 0 0 0)))
     = (0, Some (replicate 64 (ColorRGBA 128 128 128 255)))"
  by (simp add: TCOD_tileset_get_tile_'_def TCOD_tileset_get_tile_def TCOD_tileset_get_charmap_def
      tileset_8x8_A_def arena_def memcpy_def)

text \<open>
  C2, as amended. In scenario A the stored block is the block that was written, every
  pixel \<open>{128, 128, 128, 255}\<close>: \<^verbatim>\<open>TCOD_tileset_set_tile_\<close> copies the buffer and converts
  nothing.
\<close>

theorem scenario_A_stores_block_unchanged:
  "TCOD_tileset_new alloc_ok 8 8 = Some tileset_8x8 \<and>
   TCOD_tileset_set_tile_' alloc_ok (Some tileset_8x8) 65 (replicate 64 (ColorRGBA 128 128 128 255))
     = Some (0, Some tileset_8x8_A, []) \<and>
   tile_block tileset_8x8_A 1 = replicate 64 (ColorRGBA 128 128 128 255) \<and>
   TCOD_tileset_get_tile_' (Some tileset_8x8_A) 65 (Some (replicate 64 (ColorRGBA 0 0 0 0)))
     = (0, Some (replicate 64 (ColorRGBA 128 128 128 255)))"
proof -
  have "tile_block tileset_8x8_A 1 = replicate 64 (ColorRGBA 128 128 128 255)"
    by (simp add: tile_block_def tileset_8x8_A_def arena_def)
  with tileset_8x8_new tileset_8x8_set_tile tileset_8x8_get_tile show ?thesis by simp
qed

text \<open>
  C2, as stated, fails: the block read back in scenario A is not the block of pixels
  \<open>{255, 255, 255, 128}\<close>.
\<close>

theorem scenario_A_not_white_with_alpha:
  "TCOD_tileset_new alloc_ok 8 8 = Some tileset_8x8 \<and>
   TCOD_tileset_set_tile_' alloc_ok (Some tileset_8x8) 65 (replicate 64 (ColorRGBA 128 128 128 255))
     = Some (0, Some tileset_8x8_A, []) \<and>
   TCOD_tileset_get_tile_' (Some tileset_8x8_A) 65 (Some (replicate 64 (ColorRGBA 0 0 0 0)))
     \<noteq> (0, Some (replicate 64 (ColorRGBA 255 255 255 128)))"
proof -
  have "replicate 64 (ColorRGBA 128 128 128 255) \<noteq> replicate 64 (ColorRGBA 255 255 255 128)"
    by (simp add: replicate_eq_replicate)
  with tileset_8x8_new tileset_8x8_set_tile tileset_8x8_get_tile show ?thesis by simp
qed

subsection \<open>Loading a font atlas\<close>

lemma concat_blocks_length:
  "(\<And>i. i < n \<Longrightarrow> length (f i) = m) \<Longrightarrow> length (concat (map f [0..<n])) = n * m"
  by (induction n) simp_all

lemma concat_blocks_nth:
  assumes "\<And>i. i < n \<Longrightarrow> length (f i) = m" and "i < n" and "j < m"
  shows "concat (map f [0..<n]) ! (i * m + j) = f i ! j"
  using assms
proof (induction n)
  case 0
  then show ?case by simp
next
  case (Suc n)
  have len: "length (concat (map f [0..<n])) = n * m"
    using Suc.prems(1) by (intro concat_blocks_length) simp
  show ?case
  proof (cases "i < n")
    case True
    then have "i * m + j < n * m"
    proof -
      from True have "Suc i \<le> n" by simp
      then have "Suc i * m \<le> n * m" by (rule mult_le_mono1)
      with Suc.prems(3) show ?thesis by simp
    qed
    with len Suc.IH [OF _ True Suc.prems(3)] Suc.prems(1) show ?thesis
      by (simp add: nth_append)
  next
    case False
    with Suc.prems(2) have "i = n" by simp
    with len Suc.prems(3) show ?thesis by (simp add: nth_append)
  qed
qed

lemma load_tile_length:
  "length (load_tile font fw tw th columns key i) = nat th * nat tw"
proof -
  have "length (concat (map (\<lambda>y. map (g y) [0..<nat tw]) [0..<nat th])) = nat th * nat tw"
    for g :: "nat \<Rightarrow> nat \<Rightarrow> TCOD_ColorRGBA"
    by (rule concat_blocks_length) simp
  then show ?thesis
    by (simp add: load_tile_def Let_def split: prod.splits)
qed

lemma load_tile_nth:
  assumes "y < nat th" "x < nat tw"
  shows "load_tile font fw tw th columns key i ! (y * nat tw + x) =
    (let font_i = nat (int i div columns * th) * fw + nat (int i mod columns * tw)
     in load_normalize (fst (load_analyse font fw tw th font_i))
          (snd (load_analyse font fw tw th font_i)) key (font ! (font_i + y * fw + x)))"
proof -
  have "concat (map (\<lambda>y. map (g y) [0..<nat tw]) [0..<nat th]) ! (y * nat tw + x) = g y x"
    for g :: "nat \<Rightarrow> nat \<Rightarrow> TCOD_ColorRGBA"
    using concat_blocks_nth [of "nat th" "\<lambda>y. map (g y) [0..<nat tw]" "nat tw" y x] assms
    by simp
  then show ?thesis
    by (simp add: load_tile_def Let_def split: prod.splits)
qed

lemma load_assign_frame:
  assumes "0 \<le> character_map_length ts" "load_assign A charmap todo ts = Some (Some ts')"
  shows "pixels ts' = pixels ts \<and> tile_width ts' = tile_width ts \<and>
    tile_height ts' = tile_height ts \<and> tile_length ts' = tile_length ts \<and>
    tiles_capacity ts' = tiles_capacity ts \<and> tiles_count ts' = tiles_count ts"
  using assms
proof (induction todo arbitrary: ts)
  case Nil
  then show ?case by simp
next
  case (Cons i todo)
  let ?c = "case charmap of None \<Rightarrow> int i | Some cm \<Rightarrow> cm ! i"
  from Cons.prems(2) obtain r ts1 where
    a: "TCOD_tileset_assign_charmap A (Some ts) ?c (int i) = Some (r, Some ts1)"
    and r: "\<not> r < 0" and rest: "load_assign A charmap todo ts1 = Some (Some ts')"
    by (auto simp: Let_def split: option.splits prod.splits if_splits)
  note f = assign_frame [OF Cons.prems(1) a]
  from Cons.prems(1) a have "0 \<le> character_map_length ts1"
  proof (cases rule: assign_cases)
    case fail
    with Cons.prems(1) show ?thesis by simp
  next
    case (ok m)
    with Cons.prems(1) show ?thesis by simp
  qed
  from Cons.IH [OF this rest] f show ?case by simp
qed

lemma load_result:
  assumes "TCOD_tileset_load A (Some (font, fw, fh)) columns rows n charmap = Some (Some ts)"
  shows "tile_width ts = int fw div columns" "tile_height ts = int fh div rows"
    "tile_length ts = tile_width ts * tile_height ts"
    "tiles_capacity ts = columns * rows" "tiles_count ts = columns * rows"
    "pixels ts = Some (concat (map
        (load_tile font fw (tile_width ts) (tile_height ts) columns
           (load_color_key font fw (tile_width ts) (tile_height ts)))
        [0..<nat (columns * rows)]))"
proof -
  let ?tw = "int fw div columns" and ?th = "int fh div rows"
  let ?ts3 = "\<lparr>tile_width = ?tw, tile_height = ?th, tile_length = ?tw * ?th,
                 tiles_capacity = columns * rows, tiles_count = columns * rows,
                 pixels = Some (concat (map
                    (load_tile font fw ?tw ?th columns (load_color_key font fw ?tw ?th))
                    [0..<nat (columns * rows)])),
                 character_map_length = 0, character_map = [],
                 observer_list = [], virtual_columns = columns, ref_count = 1\<rparr>"
  from assms obtain todo where "load_assign A charmap todo ?ts3 = Some (Some ts)"
    by (auto simp: TCOD_tileset_load_def TCOD_tileset_new_def Let_def split: if_splits)
  from load_assign_frame [OF _ this]
  have "pixels ts = pixels ?ts3 \<and> tile_width ts = tile_width ?ts3 \<and>
    tile_height ts = tile_height ?ts3 \<and> tile_length ts = tile_length ?ts3 \<and>
    tiles_capacity ts = tiles_capacity ?ts3 \<and> tiles_count ts = tiles_count ?ts3"
    by simp
  then show "tile_width ts = int fw div columns" "tile_height ts = int fh div rows"
    "tile_length ts = tile_width ts * tile_height ts"
    "tiles_capacity ts = columns * rows" "tiles_count ts = columns * rows"
    "pixels ts = Some (concat (map
        (load_tile font fw (tile_width ts) (tile_height ts) columns
           (load_color_key font fw (tile_width ts) (tile_height ts)))
        [0..<nat (columns * rows)]))"
    by simp_all
qed

lemma fold_key:
  assumes "\<And>y ck. f y ck = (case ck of None \<Rightarrow> None | Some k \<Rightarrow> if P y k then Some k else None)"
  shows "fold f ys ck =
     (case ck of None \<Rightarrow> None | Some k \<Rightarrow> if \<forall>y\<in>set ys. P y k then Some k else None)"
proof (induction ys arbitrary: ck)
  case Nil
  then show ?case by (simp split: option.splits)
next
  case (Cons y ys)
  have "fold f (y # ys) ck = fold f ys (f y ck)" by simp
  also have "\<dots> = (case f y ck of None \<Rightarrow> None
                     | Some k \<Rightarrow> if \<forall>y\<in>set ys. P y k then Some k else None)"
    by (rule Cons.IH)
  also have "\<dots> = (case ck of None \<Rightarrow> None
                     | Some k \<Rightarrow> if \<forall>y\<in>set (y # ys). P y k then Some k else None)"
    unfolding assms by (cases ck) simp_all
  finally show ?case .
qed

lemma load_color_key_eq:
  "load_color_key font fw tw th =
     (if \<forall>y<nat th. \<forall>x<nat tw. font ! (y * fw + x) = font ! 0 then Some (font ! 0) else None)"
proof -
  let ?row = "\<lambda>y. fold (\<lambda>x color_key.
                  (let pixel = font ! (y * fw + x) in
                   case color_key of
                     None \<Rightarrow> None
                   | Some k \<Rightarrow> if pixel \<noteq> k then None else color_key))
                [0..<nat tw]"
  have row: "?row y ck =
    (case ck of None \<Rightarrow> None
     | Some k \<Rightarrow> if \<forall>x\<in>set [0..<nat tw]. font ! (y * fw + x) = k then Some k else None)"
    for y ck
    by (rule fold_key) (simp add: Let_def split: option.splits)
  have "fold ?row [0..<nat th] (Some (font ! 0)) =
    (if \<forall>y\<in>set [0..<nat th]. \<forall>x\<in>set [0..<nat tw]. font ! (y * fw + x) = font ! 0
     then Some (font ! 0) else None)"
    by (subst fold_key [of ?row, OF row]) simp
  then show ?thesis
    unfolding load_color_key_def by simp
qed

lemma color_eq:
  "col_r k = col_r q \<and> col_g k = col_g q \<and> col_b k = col_b q \<and> col_a k = col_a q \<longleftrightarrow> k = q"
  by (cases k; cases q) simp

lemma load_normalize_eq:
  "load_normalize has_color has_alpha key p =
     (if key = Some (if (has_color, has_alpha) = (False, False)
                     then ColorRGBA 255 255 255 (col_r p) else p)
      then ColorRGBA 0 0 0 0
      else if (has_color, has_alpha) = (False, False)
           then ColorRGBA 255 255 255 (col_r p) else p)"
proof (cases key)
  case None
  then show ?thesis by (simp add: load_normalize_def)
next
  case (Some k)
  then show ?thesis
    unfolding load_normalize_def Let_def color_eq by simp
qed

lemma upt_2: "[0..<2] = [0, 1]"
  by (simp add: upt_conv_Cons)

lemma tileset_grey_load:
  "TCOD_tileset_load alloc_ok (Some (font_grey, 1, 1)) 1 1 1 None = Some (Some tileset_grey)"
  by (simp add: TCOD_tileset_load_def TCOD_tileset_new_def alloc_ok_def Let_def load_color_key_def
      load_tile_def load_analyse_def load_normalize_def TCOD_tileset_assign_charmap_def
      DEFAULT_CHARMAP_LENGTH_def charmap_new_length.simps font_grey_def tileset_grey_def)

lemma tileset_pair_load:
  "TCOD_tileset_load alloc_ok (Some (font_pair, 2, 1)) 2 1 2 None = Some (Some tileset_pair)"
  by (simp add: TCOD_tileset_load_def TCOD_tileset_new_def alloc_ok_def Let_def load_color_key_def
      load_tile_def load_analyse_def load_normalize_def TCOD_tileset_assign_charmap_def
      DEFAULT_CHARMAP_LENGTH_def charmap_new_length.simps upt_2 font_pair_def tileset_pair_def)

text \<open>
  C3, as amended. In a loaded tileset the pixel \<open>(x, y)\<close> of tile \<open>i\<close> is the pixel of
  the font after the grey-scale normalization of its tile, unless that normalized pixel
  equals the color key, and then it is \<open>{0, 0, 0, 0}\<close>; in every tile, tile 0 too. The
  key is pixel 0 of the font when all pixels of tile 0 equal it. So the normalization
  does decide which pixels match the key.
\<close>

theorem load_key_substitution:
  assumes "TCOD_tileset_load A (Some (font, fw, fh)) columns rows n charmap = Some (Some ts)"
    and "0 < columns" and "0 < rows"
    and "i < nat (columns * rows)" and "y < nat (tile_height ts)" and "x < nat (tile_width ts)"
  shows "let tw = tile_width ts; th = tile_height ts;
             font_i = nat (int i div columns * th) * fw + nat (int i mod columns * tw);
             original = font ! (font_i + y * fw + x);
             grey = (load_analyse font fw tw th font_i = (False, False));
             normalized = (if grey then ColorRGBA 255 255 255 (col_r original) else original);
             key = (if \<forall>y<nat th. \<forall>x<nat tw. font ! (y * fw + x) = font ! 0
                    then Some (font ! 0) else None)
         in load_color_key font fw tw th = key \<and>
            arena ts ! (i * nat (tile_length ts) + y * nat tw + x) =
              (if key = Some normalized then ColorRGBA 0 0 0 0 else normalized)"
proof -
  note r = load_result [OF assms(1)]
  let ?tw = "tile_width ts" and ?th = "tile_height ts"
  let ?key = "load_color_key font fw ?tw ?th"
  from assms(5,6) have pos: "0 < ?th" "0 < ?tw" by simp_all
  then have tl: "nat (tile_length ts) = nat ?th * nat ?tw"
    by (simp add: r(3) nat_mult_distrib mult.commute)
  from assms(5,6) have "y * nat ?tw + x < nat ?th * nat ?tw"
  proof -
    from assms(5) have "Suc y * nat ?tw \<le> nat ?th * nat ?tw"
      by (intro mult_le_mono1) simp
    with assms(6) show ?thesis by simp
  qed
  with concat_blocks_nth [of "nat (columns * rows)"
      "load_tile font fw ?tw ?th columns ?key" "nat ?th * nat ?tw" i "y * nat ?tw + x"] assms(4)
  have "arena ts ! (i * nat (tile_length ts) + y * nat ?tw + x) =
      load_tile font fw ?tw ?th columns ?key i ! (y * nat ?tw + x)"
    by (simp add: arena_def r(6) tl load_tile_length add.assoc)
  also have "\<dots> =
    (let font_i = nat (int i div columns * ?th) * fw + nat (int i mod columns * ?tw)
     in load_normalize (fst (load_analyse font fw ?tw ?th font_i))
          (snd (load_analyse font fw ?tw ?th font_i)) ?key (font ! (font_i + y * fw + x)))"
    by (rule load_tile_nth [OF assms(5,6)])
  finally have "arena ts ! (i * nat (tile_length ts) + y * nat ?tw + x) =
    (let font_i = nat (int i div columns * ?th) * fw + nat (int i mod columns * ?tw)
     in load_normalize (fst (load_analyse font fw ?tw ?th font_i))
          (snd (load_analyse font fw ?tw ?th font_i)) ?key (font ! (font_i + y * fw + x)))" .
  then have main: "arena ts ! (i * nat (tile_length ts) + y * nat ?tw + x) =
    (if (if \<forall>y<nat ?th. \<forall>x<nat ?tw. font ! (y * fw + x) = font ! 0
         then Some (font ! 0) else None) =
        Some (if load_analyse font fw ?tw ?th
                   (nat (int i div columns * ?th) * fw + nat (int i mod columns * ?tw))
                 = (False, False)
              then ColorRGBA 255 255 255
                     (col_r (font ! (nat (int i div columns * ?th) * fw
                                     + nat (int i mod columns * ?tw) + y * fw + x)))
              else font ! (nat (int i div columns * ?th) * fw
                           + nat (int i mod columns * ?tw) + y * fw + x))
     then ColorRGBA 0 0 0 0
     else if load_analyse font fw ?tw ?th
                   (nat (int i div columns * ?th) * fw + nat (int i mod columns * ?tw))
                 = (False, False)
          then ColorRGBA 255 255 255
                     (col_r (font ! (nat (int i div columns * ?th) * fw
                                     + nat (int i mod columns * ?tw) + y * fw + x)))
          else font ! (nat (int i div columns * ?th) * fw
                           + nat (int i mod columns * ?tw) + y * fw + x))"
    unfolding Let_def load_normalize_eq prod.collapse load_color_key_eq .
  show ?thesis
    unfolding Let_def by (intro conjI, rule load_color_key_eq, rule main)
qed

theorem load_key_substitution_witness:
  "TCOD_tileset_load alloc_ok (Some (font_pair, 2, 1)) 2 1 2 None = Some (Some tileset_pair) \<and>
   (0::int) < 2 \<and> (0::int) < 1 \<and> (1::nat) < nat (2 * 1) \<and>
   (0::nat) < nat (tile_height tileset_pair) \<and> (0::nat) < nat (tile_width tileset_pair) \<and>
   load_color_key font_pair 2 (tile_width tileset_pair) (tile_height tileset_pair)
     = Some (ColorRGBA 255 255 255 128) \<and>
   arena tileset_pair ! (1 * nat (tile_length tileset_pair) + 0 * nat (tile_width tileset_pair) + 0)
     = ColorRGBA 0 0 0 0"
proof -
  have h: "(0::int) < 2" "(0::int) < 1" "(1::nat) < nat (2 * 1)"
    "(0::nat) < nat (tile_height tileset_pair)" "(0::nat) < nat (tile_width tileset_pair)"
    by (simp_all add: tileset_pair_def)
  have g: "tile_width tileset_pair = 1" "tile_height tileset_pair = 1"
    "tile_length tileset_pair = 1"
    by (simp_all add: tileset_pair_def)
  have a: "load_analyse [ColorRGBA 255 255 255 128, ColorRGBA 128 128 128 255] 2 1 1 (Suc 0)
             = (False, False)"
    by (simp add: load_analyse_def)
  from load_key_substitution [OF tileset_pair_load h]
  have "load_color_key font_pair 2 (tile_width tileset_pair) (tile_height tileset_pair)
     = Some (ColorRGBA 255 255 255 128) \<and>
   arena tileset_pair ! (1 * nat (tile_length tileset_pair) + 0 * nat (tile_width tileset_pair) + 0)
     = ColorRGBA 0 0 0 0"
    by (simp add: Let_def g a font_pair_def)
  with tileset_pair_load h show ?thesis by simp
qed

text \<open>
  C3, as stated, fails both ways. In \<open>tileset_grey\<close> the only pixel of the font equals
  the key and is not forced to \<open>{0, 0, 0, 0}\<close>: it is normalized first and no longer
  matches. In \<open>tileset_pair\<close> the second pixel of the font differs from the key and is
  forced to \<open>{0, 0, 0, 0}\<close>: normalized, it equals the key.
\<close>

theorem load_key_compares_normalized_pixel:
  "TCOD_tileset_load alloc_ok (Some (font_grey, 1, 1)) 1 1 1 None = Some (Some tileset_grey) \<and>
   load_color_key font_grey 1 1 1 = Some (font_grey ! 0) \<and>
   arena tileset_grey ! 0 \<noteq> ColorRGBA 0 0 0 0 \<and>
   TCOD_tileset_load alloc_ok (Some (font_pair, 2, 1)) 2 1 2 None = Some (Some tileset_pair) \<and>
   load_color_key font_pair 2 1 1 = Some (font_pair ! 0) \<and>
   font_pair ! 1 \<noteq> font_pair ! 0 \<and>
   arena tileset_pair ! 1 = ColorRGBA 0 0 0 0"
proof -
  have "load_color_key font_grey 1 1 1 = Some (font_grey ! 0)"
    "load_color_key font_pair 2 1 1 = Some (font_pair ! 0)"
    by (simp_all add: load_color_key_def font_grey_def font_pair_def)
  moreover have "arena tileset_grey ! 0 \<noteq> ColorRGBA 0 0 0 0"
    "font_pair ! 1 \<noteq> font_pair ! 0" "arena tileset_pair ! 1 = ColorRGBA 0 0 0 0"
    by (simp_all add: arena_def tileset_grey_def tileset_pair_def font_pair_def)
  ultimately show ?thesis using tileset_grey_load tileset_pair_load by simp
qed

subsection \<open>Growth of the pixel arena\<close>












subsection \<open>Well-formedness is kept\<close>

text \<open>
  With \<open>new_ok\<close>, \<open>assign_ok\<close> and \<open>generate_ok\<close> above: a tileset that
  \<^verbatim>\<open>TCOD_tileset_new\<close> or \<^verbatim>\<open>TCOD_tileset_load\<close> returns is well-formed, and the writing
  functions keep it so; \<open>assign_returns\<close>, \<open>generate_returns\<close> and \<open>set_tile_returns\<close>
  show that on a well-formed tileset each of them returns.
\<close>

lemma set_tile_ok:
  assumes "tileset_ok ts" and "nat (tile_length ts) \<le> length block"
    and "TCOD_tileset_set_tile_' A (Some ts) c block = Some (st, tileset', evs)"
  shows "\<exists>ts'. tileset' = Some ts' \<and> tileset_ok ts'"
  using assms(1,3)
proof (cases rule: set_tile_cases)
  case (failed ts1)
  then show ?thesis by simp
next
  case (written t ts1)
  from set_tile_tile_length [OF assms(1) written(5)] assms(2)
  have "nat (tile_length ts1) \<le> length block" by simp
  from memcpy_length [OF block_in_arena [OF written(3,1,2)] this] written(3)
  have "tileset_ok (ts1\<lparr>pixels := Some (memcpy (arena ts1) (nat (tile_length ts1 * t))
                                              block (nat (tile_length ts1)))\<rparr>)"
    by (simp add: tileset_ok_def)
  with written(6) show ?thesis by simp
qed

lemma load_assign_ok:
  assumes "tileset_ok ts" "load_assign A charmap todo ts = Some (Some ts')"
  shows "tileset_ok ts'"
  using assms
proof (induction todo arbitrary: ts)
  case Nil
  then show ?case by simp
next
  case (Cons i todo)
  let ?c = "case charmap of None \<Rightarrow> int i | Some cm \<Rightarrow> cm ! i"
  from Cons.prems(2) obtain r ts1 where
    a: "TCOD_tileset_assign_charmap A (Some ts) ?c (int i) = Some (r, Some ts1)"
    and rest: "load_assign A charmap todo ts1 = Some (Some ts')"
    by (auto simp: Let_def split: option.splits prod.splits if_splits)
  from assign_ok [OF Cons.prems(1) a] have "tileset_ok ts1" by simp
  from Cons.IH [OF this rest] show ?case .
qed

lemma load_ok:
  assumes "TCOD_tileset_load A (Some (font, fw, fh)) columns rows n charmap = Some (Some ts)"
    and "0 < columns" and "0 < rows"
  shows "tileset_ok ts"
proof -
  let ?tw = "int fw div columns" and ?th = "int fh div rows"
  let ?ts3 = "\<lparr>tile_width = ?tw, tile_height = ?th, tile_length = ?tw * ?th,
                 tiles_capacity = columns * rows, tiles_count = columns * rows,
                 pixels = Some (concat (map
                    (load_tile font fw ?tw ?th columns (load_color_key font fw ?tw ?th))
                    [0..<nat (columns * rows)])),
                 character_map_length = 0, character_map = [],
                 observer_list = [], virtual_columns = columns, ref_count = 1\<rparr>"
  from assms(1) obtain todo where l: "load_assign A charmap todo ?ts3 = Some (Some ts)"
    by (auto simp: TCOD_tileset_load_def TCOD_tileset_new_def Let_def split: if_splits)
  from assms(2,3) have nn: "0 \<le> ?tw" "0 \<le> ?th" "0 < columns * rows"
    by (simp_all add: pos_imp_zdiv_nonneg_iff)
  have "length (concat (map
                    (load_tile font fw ?tw ?th columns (load_color_key font fw ?tw ?th))
                    [0..<nat (columns * rows)])) = nat (columns * rows) * (nat ?th * nat ?tw)"
    by (rule concat_blocks_length) (rule load_tile_length)
  also from nn have "int \<dots> = columns * rows * (?tw * ?th)"
    by (simp add: nat_mult_distrib)
  finally have "tileset_ok ?ts3"
    using nn by (simp add: tileset_ok_def arena_def)
  from load_assign_ok [OF this l] show ?thesis .
qed

end
